theory Spec2Isabelle
  imports Main "HOL-Library.Sublist"
begin

section \<open>Go strings\<close>

text \<open>
  A Go \<^verbatim>\<open>string\<close> is a sequence of bytes, and so is \<^typ>\<open>string\<close> here (a list of
  8-bit characters). A character outside ASCII is the bytes of its UTF-8 encoding.
  The functions of package \<^verbatim>\<open>strings\<close> that \<^verbatim>\<open>main.go\<close> calls with ASCII arguments
  work on bytes and are written out below. \<^verbatim>\<open>strings.ToLower\<close> maps Unicode letters and
  is not written out: it is a parameter of the model (field \<open>ToLower\<close> of the
  environment), and \<open>lowerASCII\<close> is what it does on ASCII text.
\<close>

text \<open>\<^verbatim>\<open>strings.Trim(s, cutset)\<close> for an ASCII cutset: the bytes of the cutset are cut
  from both ends.\<close>

definition Trim :: "string \<Rightarrow> string \<Rightarrow> string" where
  "Trim s cutset =
     rev (dropWhile (\<lambda>c. c \<in> set cutset) (rev (dropWhile (\<lambda>c. c \<in> set cutset) s)))"

text \<open>\<^verbatim>\<open>strings.Replace(s, old, new, -1)\<close>: every non-overlapping occurrence of \<open>old\<close>,
  found from left to right, is replaced by \<open>new\<close>. Every call of the source passes
  \<^verbatim>\<open>-1\<close> and a non-empty \<open>old\<close>; Go's special case of an empty \<open>old\<close> (which inserts
  \<open>new\<close> between the characters) is not modelled: \<open>s\<close> is returned as it is.\<close>

function Replace :: "string \<Rightarrow> string \<Rightarrow> string \<Rightarrow> string" where
  "Replace [] old new = []"
| "Replace (c # cs) old new =
     (if old \<noteq> [] \<and> prefix old (c # cs)
      then new @ Replace (drop (length old) (c # cs)) old new
      else c # Replace cs old new)"
  by pat_completeness auto
termination
  by (relation "measure (\<lambda>(s, old, new). length s)") auto

text \<open>\<^verbatim>\<open>strings.Contains(s, substr)\<close>: \<open>substr\<close> starts at some position of \<open>s\<close>.\<close>

fun Contains :: "string \<Rightarrow> string \<Rightarrow> bool" where
  "Contains [] substr = (substr = [])"
| "Contains (c # cs) substr = (prefix substr (c # cs) \<or> Contains cs substr)"

text \<open>What \<^verbatim>\<open>strings.ToLower\<close> does on ASCII text: the letters A to Z become a to z.\<close>

definition byte :: "char \<Rightarrow> nat" where
  "byte c = of_char c"

definition lowerByte :: "char \<Rightarrow> char" where
  "lowerByte c = (if 65 \<le> byte c \<and> byte c \<le> 90 then char_of (byte c + 32) else c)"

definition lowerASCII :: "string \<Rightarrow> string" where
  "lowerASCII s = map lowerByte s"

section \<open>Dish names\<close>

text \<open>\<^verbatim>\<open>trimNodeName\<close> (main.go, lines 125 to 133): one \<^verbatim>\<open>Trim\<close> and four
  \<^verbatim>\<open>Replace\<close> passes, in the order of the source.\<close>

definition trimNodeName :: "string \<Rightarrow> string" where
  "trimNodeName name =
     (let trimmed = Trim name [CHR '' '', CHR 0x09, CHR 0x0A];
          trimmed = Replace trimmed ''( '' ''('';
          trimmed = Replace trimmed '' )'' '')'';
          trimmed = Replace trimmed '' ,'' '','';
          trimmed = Replace trimmed ''  '' '' ''
      in trimmed)"

section \<open>The environment\<close>

text \<open>
  What \<^verbatim>\<open>main.go\<close> takes from outside is a parameter of the model, collected in one
  record. \<open>'n\<close> is the type of HTML nodes (\<^verbatim>\<open>*html.Node\<close>).
  \<^item> \<open>Favorites\<close>: \<^verbatim>\<open>CONFIG.Favorites\<close>, read from the configuration file.
  \<^item> \<open>ToLower\<close>: \<^verbatim>\<open>strings.ToLower\<close>.
  \<^item> \<open>Parent\<close>: the field \<^verbatim>\<open>node.Parent\<close>, \<open>None\<close> for \<^verbatim>\<open>nil\<close>.
  \<^item> \<open>Text\<close>, \<open>Attr\<close>: \<^verbatim>\<open>scrape.Text\<close> and \<^verbatim>\<open>scrape.Attr\<close>.
  \<^item> \<open>FindAllByClass n c\<close>: \<^verbatim>\<open>scrape.FindAll(n, scrape.ByClass(c))\<close>, the matching
    nodes at or below \<open>n\<close> in document order; \<open>FindAllImg n\<close>:
    \<^verbatim>\<open>scrape.FindAll(n, scrape.ByTag(atom.Img))\<close>.
  \<^item> \<open>Get\<close>: \<^verbatim>\<open>http.Get\<close>, the error or the response body; \<open>Parse\<close>: \<^verbatim>\<open>html.Parse\<close>,
    the error or the root node.
  \<^item> \<open>GetUser\<close>: \<^verbatim>\<open>bot.client.GetUser\<close>, the \<^verbatim>\<open>Username\<close> of the user it returns, \<open>None\<close>
    when it returns \<^verbatim>\<open>nil\<close> (the source drops the error it returns beside it).
  \<^item> \<open>RangeKeys\<close>: the order in which a \<^verbatim>\<open>for ... range\<close> loop visits the keys of a map.
    Go leaves it unspecified; the runtime's choice is this parameter.
  \<^item> \<open>Intn\<close>: \<^verbatim>\<open>rand.Intn\<close>.
\<close>

record 'n env =
  Favorites :: "string list"
  ToLower :: "string \<Rightarrow> string"
  Parent :: "'n \<Rightarrow> 'n option"
  Text :: "'n \<Rightarrow> string"
  Attr :: "'n \<Rightarrow> string \<Rightarrow> string"
  FindAllByClass :: "'n \<Rightarrow> string \<Rightarrow> 'n list"
  FindAllImg :: "'n \<Rightarrow> 'n list"
  Get :: "string \<Rightarrow> string + string"
  Parse :: "string \<Rightarrow> string + 'n"
  GetUser :: "string \<Rightarrow> string option"
  RangeKeys :: "(string \<rightharpoonup> string) \<Rightarrow> string list"
  Intn :: "nat \<Rightarrow> nat"

text \<open>A panic of the Go runtime. \<^verbatim>\<open>main.go\<close> has no \<^verbatim>\<open>recover\<close>: a panic ends the
  process. \<open>PanicErr\<close> is \<^verbatim>\<open>panic(err)\<close> with the error's text.\<close>

datatype panic =
    PanicErr string
  | NilDereference
  | IndexOutOfRange nat nat
  | NilMapWrite

section \<open>Dishes\<close>

text \<open>The struct \<^verbatim>\<open>dish\<close> (lines 58 to 68). \<^verbatim>\<open>prices\<close> is a \<^verbatim>\<open>[3]string\<close>: a list here,
  whose length the theorems below establish.\<close>

record dish =
  name :: string
  prices :: "string list"
  isVegetarian :: bool
  isVegan :: bool
  containsBeef :: bool
  containsPork :: bool
  containsFish :: bool
  containsChicken :: bool
  lactoseFree :: bool

text \<open>\<^verbatim>\<open>isFavorite\<close> (lines 84 to 92): the loop over \<^verbatim>\<open>CONFIG.Favorites\<close>, then the
  method.\<close>

fun isFavoriteLoop :: "string \<Rightarrow> string list \<Rightarrow> bool" where
  "isFavoriteLoop nm [] = False"
| "isFavoriteLoop nm (f # fs) = (if Contains nm f then True else isFavoriteLoop nm fs)"

definition isFavorite :: "'n env \<Rightarrow> dish \<Rightarrow> bool" where
  "isFavorite e d = isFavoriteLoop (ToLower e (name d)) (Favorites e)"

text \<open>\<^verbatim>\<open>String\<close> (lines 94 to 123).\<close>

definition String :: "'n env \<Rightarrow> dish \<Rightarrow> string" where
  "String e d =
     ''| '' @ name d @ '' |''
     @ (if isFavorite e d then '' :heart_eyes:'' else [])
     @ (if isVegan d then '' :sunflower:'' else if isVegetarian d then '' :carrot:'' else [])
     @ (if containsBeef d then '' :cow2:'' else [])
     @ (if containsPork d then '' :pig2:'' else [])
     @ (if containsFish d then '' :fish:'' else [])
     @ (if containsChicken d then '' :rooster:'' else [])
     @ (if lactoseFree d then '' :milk_glass:'' else [])
     @ '' |''
     @ '' '' @ prices d ! 0 @ '' // '' @ prices d ! 1 @ '' // '' @ prices d ! 2 @ '' |''"

text \<open>The loop of lines 150 to 152: \<^verbatim>\<open>prices[i] = ...\<close> for the \<open>i\<close>-th price node. An
  index outside the array is a panic of the runtime.\<close>

fun priceLoop :: "'n env \<Rightarrow> nat \<Rightarrow> 'n list \<Rightarrow> string list \<Rightarrow> panic + string list" where
  "priceLoop e i [] ps = Inr ps"
| "priceLoop e i (price # rest) ps =
     (if i < length ps
      then priceLoop e (Suc i) rest (ps[i := Replace (Text e price) [CHR 0xC2, CHR 0xA0] []])
      else Inl (IndexOutOfRange i (length ps)))"

text \<open>The loop of lines 154 to 171: the \<^verbatim>\<open>switch\<close> on the lower-cased title of each
  image. The local variables are the fields of the dish under construction.\<close>

definition imgTitle :: "string \<Rightarrow> dish \<Rightarrow> dish" where
  "imgTitle t d =
     (if t = ''vegetarisch'' then d\<lparr>isVegetarian := True\<rparr>
      else if t = ''vegan'' then d\<lparr>isVegan := True\<rparr>
      else if t = ''mit rind'' then d\<lparr>containsBeef := True\<rparr>
      else if t = ''mit schwein'' then d\<lparr>containsPork := True\<rparr>
      else if t = ''mit fisch'' then d\<lparr>containsFish := True\<rparr>
      else if t = ''mit gefl'' @ [CHR 0xC3, CHR 0xBC] @ ''gel'' then d\<lparr>containsChicken := True\<rparr>
      else if t = ''laktosefrei'' then d\<lparr>lactoseFree := True\<rparr>
      else d)"

fun imgLoop :: "'n env \<Rightarrow> 'n list \<Rightarrow> dish \<Rightarrow> dish" where
  "imgLoop e [] d = d"
| "imgLoop e (img # rest) d = imgLoop e rest (imgTitle (ToLower e (Attr e img ''title'')) d)"

text \<open>\<^verbatim>\<open>dishFromNode\<close> (lines 135 to 174). \<^verbatim>\<open>scrape.FindAll\<close> applies its matcher to the
  node it is given, so a \<^verbatim>\<open>nil\<close> parent is a nil dereference.\<close>

definition dishFromNode :: "'n env \<Rightarrow> 'n \<Rightarrow> panic + dish" where
  "dishFromNode e node =
     (let nm = trimNodeName (Text e node) in
      case Parent e node of
        None \<Rightarrow> Inl NilDereference
      | Some parent \<Rightarrow>
          let priceNodes = FindAllByClass e parent ''price'';
              imgNodes = FindAllImg e node
          in case priceLoop e 0 priceNodes (replicate 3 []) of
               Inl err \<Rightarrow> Inl err
             | Inr ps \<Rightarrow>
                 let d = imgLoop e imgNodes
                       \<lparr>name = nm, prices = ps, isVegetarian = False, isVegan = False,
                        containsBeef = False, containsPork = False, containsFish = False,
                        containsChicken = False, lactoseFree = False\<rparr>
                 in Inr (d\<lparr>isVegetarian := isVegetarian d \<or> isVegan d\<rparr>))"

text \<open>\<^verbatim>\<open>getCanteenPlan\<close> (lines 176 to 193): both errors are a \<^verbatim>\<open>panic(err)\<close>.\<close>

fun dishLoop :: "'n env \<Rightarrow> 'n list \<Rightarrow> dish list \<Rightarrow> panic + dish list" where
  "dishLoop e [] dishes = Inr dishes"
| "dishLoop e (dn # rest) dishes =
     (case dishFromNode e dn of
        Inl err \<Rightarrow> Inl err
      | Inr d \<Rightarrow> dishLoop e rest (dishes @ [d]))"

definition getCanteenPlan :: "'n env \<Rightarrow> string \<Rightarrow> panic + dish list" where
  "getCanteenPlan e url =
     (case Get e url of
        Inl err \<Rightarrow> Inl (PanicErr err)
      | Inr body \<Rightarrow>
          (case Parse e body of
             Inl err \<Rightarrow> Inl (PanicErr err)
           | Inr root \<Rightarrow> dishLoop e (FindAllByClass e root ''dish-description'') []))"

section \<open>Regular expressions\<close>

text \<open>
  The seven patterns of lines 29 to 40, as Go's package \<^verbatim>\<open>regexp\<close> matches them on the
  bytes of a string. Six have the shape \<^verbatim>\<open>(?i)(?:^|\W)(k1|...|kn)(?:$|\W)\<close>.
  \<^item> \<^verbatim>\<open>\w\<close> is the class of the ASCII letters, the digits and the underscore.
  \<^item> Under \<^verbatim>\<open>(?i)\<close> a letter of the pattern matches both of its cases, and \<^verbatim>\<open>k\<close> and
    \<^verbatim>\<open>s\<close> also match the two characters that fold to them, the Kelvin sign U+212A and
    the long s U+017F. The parser closes \<^verbatim>\<open>\w\<close> under the same folding and takes \<^verbatim>\<open>\W\<close>
    as its complement, so under \<^verbatim>\<open>(?i)\<close> these two characters are not matched by \<^verbatim>\<open>\W\<close>.
  \<^item> Every other character outside ASCII, and every byte that is not valid UTF-8 (read
    as U+FFFD, one byte wide), is matched by \<^verbatim>\<open>\W\<close>. The encodings of the two characters
    (C5 BF and E2 84 AA) start with a leading byte, where the decoder always starts a
    character, so the bytes alone decide.
  \<^item> Without the flag \<^verbatim>\<open>m\<close>, \<^verbatim>\<open>^\<close> and \<^verbatim>\<open>$\<close> are the two ends of the text; without \<^verbatim>\<open>s\<close>,
    the dot matches every character but the newline.
\<close>

definition isWordByte :: "char \<Rightarrow> bool" where
  "isWordByte c =
     ((48 \<le> byte c \<and> byte c \<le> 57) \<or> (65 \<le> byte c \<and> byte c \<le> 90) \<or> byte c = 95
      \<or> (97 \<le> byte c \<and> byte c \<le> 122))"

definition longS :: string where
  "longS = [CHR 0xC5, CHR 0xBF]"

definition kelvin :: string where
  "kelvin = [CHR 0xE2, CHR 0x84, CHR 0xAA]"

text \<open>The byte sequences that a letter of the pattern matches under \<^verbatim>\<open>(?i)\<close>.\<close>

definition foldAlts :: "char \<Rightarrow> string list" where
  "foldAlts c =
     (let l = lowerByte c in
      if l = CHR ''k'' then [''k'', ''K'', kelvin]
      else if l = CHR ''s'' then [''s'', ''S'', longS]
      else if 97 \<le> byte l \<and> byte l \<le> 122 then [[l], [char_of (byte l - 32)]]
      else [[c]])"

fun stripFirst :: "string list \<Rightarrow> string \<Rightarrow> string option" where
  "stripFirst [] t = None"
| "stripFirst (a # as) t = (if prefix a t then Some (drop (length a) t) else stripFirst as t)"

text \<open>A literal of the pattern at the front of \<open>t\<close> under \<^verbatim>\<open>(?i)\<close>: what is left of \<open>t\<close>
  behind it.\<close>

fun matchFold :: "string \<Rightarrow> string \<Rightarrow> string option" where
  "matchFold [] t = Some t"
| "matchFold (c # cs) t =
     (case stripFirst (foldAlts c) t of None \<Rightarrow> None | Some t' \<Rightarrow> matchFold cs t')"

text \<open>\<^verbatim>\<open>\W\<close> under \<^verbatim>\<open>(?i)\<close>, on the first character of \<open>t\<close> and on the last character of
  \<open>p\<close>.\<close>

definition startsNonWord :: "string \<Rightarrow> bool" where
  "startsNonWord t =
     (case t of [] \<Rightarrow> False
      | c # _ \<Rightarrow> \<not> isWordByte c \<and> \<not> prefix longS t \<and> \<not> prefix kelvin t)"

definition endsNonWord :: "string \<Rightarrow> bool" where
  "endsNonWord p = (p \<noteq> [] \<and> \<not> isWordByte (last p) \<and> \<not> suffix longS p \<and> \<not> suffix kelvin p)"

text \<open>\<^verbatim>\<open>(k1|...|kn)(?:$|\W)\<close> at the front of \<open>t\<close>.\<close>

definition keywordAt :: "string list \<Rightarrow> string \<Rightarrow> bool" where
  "keywordAt kws t =
     list_ex (\<lambda>kw. case matchFold kw t of None \<Rightarrow> False
                 | Some r \<Rightarrow> r = [] \<or> startsNonWord r) kws"

text \<open>\<^verbatim>\<open>MatchString\<close> of \<^verbatim>\<open>(?i)(?:^|\W)(k1|...|kn)(?:$|\W)\<close>: a match starts at some position
  of the text.\<close>

definition MatchKeywords :: "string list \<Rightarrow> string \<Rightarrow> bool" where
  "MatchKeywords kws s =
     list_ex (\<lambda>i. (i = 0 \<or> endsNonWord (take i s)) \<and> keywordAt kws (drop i s))
       [0..<Suc (length s)]"

definition REG_EXP_STATUS :: "string \<Rightarrow> bool" where
  "REG_EXP_STATUS = MatchKeywords [''alive'', ''running'', ''up'']"

definition REG_EXP_HELP :: "string \<Rightarrow> bool" where
  "REG_EXP_HELP = MatchKeywords [''command'', ''commands'', ''help'']"

definition REG_EXP_LEGEND :: "string \<Rightarrow> bool" where
  "REG_EXP_LEGEND =
     MatchKeywords [''legend'', ''legende'', ''zusatzstoff'', ''zusatzstoffe'', ''nummer'', ''nummern'']"

definition REG_EXP_TODAY :: "string \<Rightarrow> bool" where
  "REG_EXP_TODAY = MatchKeywords [''heute'', ''today'', ''hunger'']"

definition REG_EXP_TOMORROW :: "string \<Rightarrow> bool" where
  "REG_EXP_TOMORROW = MatchKeywords [''morgen'', ''tomorrow'']"

definition REG_EXP_THANKS :: "string \<Rightarrow> bool" where
  "REG_EXP_THANKS = MatchKeywords [''dank'', ''danke'', ''thank'', ''thanks'']"

text \<open>
  \<^verbatim>\<open>REG_EXP_ORDER\<close> (line 36),
  \<^verbatim>\<open>^@\w+ order (?P<command>open|submit|list|close) ?(?P<content>.*)$\<close>, has no \<^verbatim>\<open>(?i)\<close>.
  \<open>REG_EXP_ORDER_Submatch\<close> gives the two named groups of its match, if there is one.
  The text behind \<^verbatim>\<open>\w+\<close> starts with a space, so the greedy \<^verbatim>\<open>\w+\<close> takes the whole run
  of word characters; the greedy \<^verbatim>\<open> ?\<close> takes a space when one follows the command.
\<close>

definition stripPrefix :: "string \<Rightarrow> string \<Rightarrow> string option" where
  "stripPrefix p s = (if prefix p s then Some (drop (length p) s) else None)"

fun firstCommand :: "string list \<Rightarrow> string \<Rightarrow> (string \<times> string) option" where
  "firstCommand [] s = None"
| "firstCommand (c # cs) s =
     (case stripPrefix c s of Some r \<Rightarrow> Some (c, r) | None \<Rightarrow> firstCommand cs s)"

definition REG_EXP_ORDER_Submatch :: "string \<Rightarrow> (string \<times> string) option" where
  "REG_EXP_ORDER_Submatch s =
     (case stripPrefix ''@'' s of
        None \<Rightarrow> None
      | Some r0 \<Rightarrow>
          if takeWhile isWordByte r0 = [] then None
          else
            (case stripPrefix '' order '' (dropWhile isWordByte r0) of
               None \<Rightarrow> None
             | Some r1 \<Rightarrow>
                 (case firstCommand [''open'', ''submit'', ''list'', ''close''] r1 of
                    None \<Rightarrow> None
                  | Some (command, r2) \<Rightarrow>
                      let content = (case stripPrefix '' '' r2 of Some r3 \<Rightarrow> r3 | None \<Rightarrow> r2)
                      in if CHR 0x0A \<in> set content then None else Some (command, content))))"

definition REG_EXP_ORDER :: "string \<Rightarrow> bool" where
  "REG_EXP_ORDER s = (REG_EXP_ORDER_Submatch s \<noteq> None)"

section \<open>Posts and the bot\<close>

text \<open>The fields of \<^verbatim>\<open>model.Post\<close> that \<^verbatim>\<open>main.go\<close> reads and writes. The field \<^verbatim>\<open>Id\<close> is
  \<open>PostId\<close> here (\<open>Id\<close> is the identity relation of HOL).\<close>

record post =
  PostId :: string
  UserId :: string
  ChannelId :: string
  RootId :: string
  Message :: string

text \<open>The order fields of the struct \<^verbatim>\<open>mensabot\<close> (lines 79 to 82). \<^verbatim>\<open>orders\<close> is \<open>None\<close>
  while the map is \<^verbatim>\<open>nil\<close>, as it is when the bot starts. The other fields of the struct
  are the connection to the chat server.\<close>

record mensabot =
  orderUser :: string
  orderDetail :: string
  orders :: "(string \<rightharpoonup> string) option"

definition newMensaBot :: mensabot where
  "newMensaBot = \<lparr>orderUser = [], orderDetail = [], orders = None\<rparr>"

text \<open>\<^verbatim>\<open>sendMessage\<close> (lines 279 to 289): the post handed to \<^verbatim>\<open>CreatePost\<close>. A handler
  returns the posts it sends, in order.\<close>

definition sendMessage :: "string \<Rightarrow> string \<Rightarrow> string \<Rightarrow> post" where
  "sendMessage msg channelID replyToID =
     \<lparr>PostId = [], UserId = [], ChannelId = channelID, RootId = replyToID, Message = msg\<rparr>"

section \<open>The order ledger\<close>

text \<open>The entries a \<^verbatim>\<open>range\<close> loop over \<^verbatim>\<open>bot.orders\<close> visits: none for a \<^verbatim>\<open>nil\<close> map.\<close>

definition rangeOrders :: "'n env \<Rightarrow> (string \<rightharpoonup> string) option \<Rightarrow> (string \<times> string) list" where
  "rangeOrders e om =
     (case om of
        None \<Rightarrow> []
      | Some m \<Rightarrow> List.map_filter (\<lambda>k. map_option (Pair k) (m k)) (RangeKeys e m))"

text \<open>The loops of lines 411 to 414 and 428 to 431: one table row per entry. The
  \<^verbatim>\<open>user\<close> that \<^verbatim>\<open>GetUser\<close> returns is dereferenced unchecked.\<close>

fun orderRows :: "'n env \<Rightarrow> (string \<times> string) list \<Rightarrow> string \<Rightarrow> panic + string" where
  "orderRows e [] msg = Inr msg"
| "orderRows e ((userId, order) # rest) msg =
     (case GetUser e userId of
        None \<Rightarrow> Inl NilDereference
      | Some username \<Rightarrow>
          orderRows e rest (msg @ ''| @'' @ username @ '' | '' @ order @ '' |\<newline>''))"

text \<open>The loop of lines 363 to 373 over the matches of \<^verbatim>\<open>REG_EXP_ORDER\<close>: the pattern is
  anchored at both ends, so there is at most one; \<^verbatim>\<open>cmd\<close> and \<^verbatim>\<open>content\<close> stay empty
  without one.\<close>

definition orderGroups :: "string \<Rightarrow> string \<times> string" where
  "orderGroups msg = (case REG_EXP_ORDER_Submatch msg of None \<Rightarrow> ([], []) | Some m \<Rightarrow> m)"

text \<open>\<^verbatim>\<open>handleOrder\<close> (lines 358 to 439): the new state of the bot and the posts sent, or
  the panic.\<close>

definition handleOrder :: "'n env \<Rightarrow> mensabot \<Rightarrow> post \<Rightarrow> panic + (mensabot \<times> post list)" where
  "handleOrder e b p =
     (let cmd = fst (orderGroups (Message p)); content = snd (orderGroups (Message p)) in
      if cmd = ''open'' then
        if orderDetail b \<noteq> [] then
          if orderUser b = UserId p
          then Inr (b\<lparr>orderDetail := content\<rparr>,
                 [sendMessage ''Updated order details'' (ChannelId p) (PostId p)])
          else Inr (b, [sendMessage ''Not overwriting active order'' (ChannelId p) (PostId p)])
        else
          (case GetUser e (UserId p) of
             None \<Rightarrow> Inl NilDereference
           | Some username \<Rightarrow>
               Inr (b\<lparr>orderUser := UserId p, orderDetail := content, orders := Some Map.empty\<rparr>,
                 [sendMessage (''#FoodOrder opened by @'' @ username @ '': '' @ content)
                    (ChannelId p) (PostId p)]))
      else if cmd = ''submit'' then
        if orderDetail b = []
        then Inr (b, [sendMessage ''Cannot submit without active order'' (ChannelId p) (PostId p)])
        else
          (case orders b of
             None \<Rightarrow> Inl NilMapWrite
           | Some m \<Rightarrow> Inr (b\<lparr>orders := Some (m(UserId p \<mapsto> Replace content ''|'' []))\<rparr>, []))
      else if cmd = ''list'' then
        if orderDetail b = []
        then Inr (b, [sendMessage ''Cannot list without active order'' (ChannelId p) (PostId p)])
        else
          (case orderRows e (rangeOrders e (orders b))
                  (''**[Active order]** '' @ orderDetail b @ ''\<newline>\<newline>''
                   @ ''| User | Order |\<newline>'' @ ''| -- | -- |\<newline>'') of
             Inl err \<Rightarrow> Inl err
           | Inr msg \<Rightarrow> Inr (b, [sendMessage msg (ChannelId p) (PostId p)]))
      else if cmd = ''close'' then
        if orderDetail b \<noteq> [] \<and> orderUser b \<noteq> UserId p then
          (case GetUser e (orderUser b) of
             None \<Rightarrow> Inl NilDereference
           | Some username \<Rightarrow>
               Inr (b, [sendMessage (''Only @'' @ username @ '' can close the active order'')
                            (ChannelId p) (PostId p)]))
        else if orderDetail b \<noteq> [] then
          (case orderRows e (rangeOrders e (orders b))
                  (''**Closing** active order:\<newline>\<newline>''
                   @ ''| User | Order |\<newline>'' @ ''| -- | -- |\<newline>'') of
             Inl err \<Rightarrow> Inl err
           | Inr msg \<Rightarrow>
               Inr (b\<lparr>orderDetail := [], orderUser := []\<rparr>,
                 [sendMessage msg (ChannelId p) (PostId p)]))
        else Inr (b, [])
      else Inr (b, []))"

section \<open>Commands\<close>

definition CANTEEN_URL_TODAY :: string where
  "CANTEEN_URL_TODAY = ''http://speiseplan.studierendenwerk-hamburg.de/de/580/2018/0/''"

definition CANTEEN_URL_TOMORROW :: string where
  "CANTEEN_URL_TOMORROW = ''http://speiseplan.studierendenwerk-hamburg.de/de/580/2018/99/''"

text \<open>\<^verbatim>\<open>writeDishes\<close> (lines 345 to 356).\<close>

definition writeDishes :: "'n env \<Rightarrow> dish list \<Rightarrow> string \<Rightarrow> string \<Rightarrow> string \<Rightarrow> post" where
  "writeDishes e dishes pre channelID replyToID =
     sendMessage
       (pre @ ''\<newline>\<newline>'' @ ''| Essen | Features | Preise |\<newline>'' @ ''| -- | -- | -- |\<newline>''
        @ concat (map (\<lambda>d. String e d @ ''\<newline>'') dishes))
       channelID replyToID"

text \<open>\<^verbatim>\<open>writeLegend\<close>, \<^verbatim>\<open>writeHelp\<close> and \<^verbatim>\<open>writeMyPleasure\<close> (lines 441 to 500). The umlauts
  and the sharp s are the two bytes of their UTF-8 encoding. \<^verbatim>\<open>rand.Intn(n)\<close> is below
  \<open>n\<close>; the parameter \<open>Intn\<close> is reduced to that range.\<close>

definition legendText :: string where
  "legendText =
     ''**Legende:**\<newline>''
     @ '':heart_eyes: = Lieblingsgericht\<newline>''
     @ '':sunflower: = Veganes Gericht\<newline>''
     @ '':carrot: = Vegetarisches Gericht\<newline>''
     @ '':cow2: = Enth'' @ [CHR 0xC3, CHR 0xA4] @ ''lt Rindfleisch\<newline>''
     @ '':pig2: = Enth'' @ [CHR 0xC3, CHR 0xA4] @ ''lt Schweinefleisch\<newline>''
     @ '':fish: = Enth'' @ [CHR 0xC3, CHR 0xA4] @ ''lt Fisch\<newline>''
     @ '':rooster: = Enth'' @ [CHR 0xC3, CHR 0xA4] @ ''lt Gefl'' @ [CHR 0xC3, CHR 0xBC] @ ''gel\<newline>''
     @ '':milk_glass: = Laktose**freies**(!) Gericht\<newline>\<newline>''
     @ ''**Zusatzstoffe:**\<newline>''
     @ ''1 = Farbstoffe\<newline>''
     @ ''2 = Konservierungsstoffe\<newline>''
     @ ''3 = Antioxidationsmittel\<newline>''
     @ ''4 = Geschmacksverst'' @ [CHR 0xC3, CHR 0xA4] @ ''rker\<newline>''
     @ ''5 = Geschwefelt\<newline>''
     @ ''6 = Geschw'' @ [CHR 0xC3, CHR 0xA4] @ ''rzt\<newline>''
     @ ''7 = Gewachst\<newline>''
     @ ''8 = Phosphat\<newline>''
     @ ''9 = S'' @ [CHR 0xC3, CHR 0xBC, CHR 0xC3, CHR 0x9F] @ ''ungsmittel\<newline>''
     @ ''10 = Phenylalaninquelle\<newline>''
     @ ''14 = enth'' @ [CHR 0xC3, CHR 0xA4] @ ''lt glutenhaltiges Getreide (z. B. Weizen, Roggen, Gerste etc.)\<newline>''
     @ ''15 = Krebstiere und Krebstiererzeugnisse\<newline>''
     @ ''16 = Ei und Eierzeugnisse\<newline>''
     @ ''17 = Fisch und Fischerzeugnisse\<newline>''
     @ ''18 = Erdn'' @ [CHR 0xC3, CHR 0xBC] @ ''sse und Erdnusserzeugnisse\<newline>''
     @ ''19 = Soja und Sojaerzeugnisse\<newline>''
     @ ''20 = Milch und Milcherzeugnisse (einschl. Laktose)\<newline>''
     @ ''21 = Schalenfr'' @ [CHR 0xC3, CHR 0xBC] @ ''chte (z.B. Mandel, Haseln''
     @ [CHR 0xC3, CHR 0xBC] @ ''sse, Walnuss etc.)\<newline>''
     @ ''22 = Sellerie und Sellerieerzeugnisse\<newline>''
     @ ''23 = Senf und Senferzeugnisse\<newline>''
     @ ''24 = Sesamsamen und Sesamsamenerzeugnisse\<newline>''
     @ ''25 = Schwefeldioxid und Sulfite (Konzentration '' @ [CHR 0xC3, CHR 0xBC]
     @ ''ber 10mg/kg oder 10mg/l)\<newline>''
     @ ''26 = Lupine und - erzeugnisse\<newline>''
     @ ''27 = Mollusken/Weichtiere (z.B. Muscheln und Weinbergschnecken)\<newline>''"

definition writeLegend :: "string \<Rightarrow> string \<Rightarrow> post" where
  "writeLegend channelID replyToID = sendMessage legendText channelID replyToID"

definition helpText :: string where
  "helpText =
     ''**Need help?** These are my supported commands:\<newline>\<newline>''
     @ ''| Command | Keyword(s) (completely case insensitive)|\<newline>''
     @ ''| -- | -- |\<newline>''
     @ ''| Status | alive, running, up |\<newline>''
     @ ''| Today's canteen plan | heute, today, hunger |\<newline>''
     @ ''| Tomorrow's canteen plan | morgen, tomorrow |\<newline>''
     @ ''| Order controls | order [open, submit, list, close] |\<newline>''
     @ ''| Legend | legend(e), zusatzstoff(e), nummer(n) |\<newline>''
     @ ''| This help message | command(s), help |\<newline>''"

definition writeHelp :: "string \<Rightarrow> string \<Rightarrow> post" where
  "writeHelp channelID replyToID = sendMessage helpText channelID replyToID"

definition pleasureMsgs :: "string list" where
  "pleasureMsgs =
     [''My pleasure'', ''You are very welcome'', ''Daf'' @ [CHR 0xC3, CHR 0xBC] @ ''r nicht'',
      ''Immer gern'']"

definition writeMyPleasure :: "'n env \<Rightarrow> string \<Rightarrow> string \<Rightarrow> post" where
  "writeMyPleasure e channelID replyToID =
     sendMessage (pleasureMsgs ! (Intn e (length pleasureMsgs) mod length pleasureMsgs))
       channelID replyToID"

text \<open>\<^verbatim>\<open>handleCommand\<close> (lines 502 to 529): the chain of \<^verbatim>\<open>if ... else if\<close> in the order
  of the source.\<close>

definition handleCommand :: "'n env \<Rightarrow> mensabot \<Rightarrow> post \<Rightarrow> panic + (mensabot \<times> post list)" where
  "handleCommand e b p =
     (if REG_EXP_STATUS (Message p)
      then Inr (b, [sendMessage ''Yes I'm up and running!'' (ChannelId p) (PostId p)])
      else if REG_EXP_TODAY (Message p) then
        (case getCanteenPlan e CANTEEN_URL_TODAY of
           Inl err \<Rightarrow> Inl err
         | Inr dishes \<Rightarrow>
             Inr (b, [writeDishes e dishes ''**Heute gibt es:**'' (ChannelId p) (PostId p)]))
      else if REG_EXP_TOMORROW (Message p) then
        (case getCanteenPlan e CANTEEN_URL_TOMORROW of
           Inl err \<Rightarrow> Inl err
         | Inr dishes \<Rightarrow>
             Inr (b, [writeDishes e dishes ''**Morgen gibt es:**'' (ChannelId p) (PostId p)]))
      else if REG_EXP_ORDER (Message p) then handleOrder e b p
      else if REG_EXP_LEGEND (Message p) then Inr (b, [writeLegend (ChannelId p) (PostId p)])
      else if REG_EXP_HELP (Message p) then Inr (b, [writeHelp (ChannelId p) (PostId p)])
      else if REG_EXP_THANKS (Message p)
      then Inr (b, [writeMyPleasure e (ChannelId p) (PostId p)])
      else Inr (b, [sendMessage
             ''**What does this even mean?!** (Type 'help' to get a list of available commands)''
             (ChannelId p) (PostId p)]))"

text \<open>The branch of \<^verbatim>\<open>handleCommand\<close> that a text takes, and what each branch does:
  \<open>classify\<close> is the chain of conditions of lines 503 to 525, \<open>act\<close> the bodies of its
  branches. Lemma \<open>handleCommand_act\<close> puts the two together again.\<close>

datatype intent =
    Status | MenuToday | MenuTomorrow | OrderCommand | Legend | Help | Thanks | Unrecognized

definition classify :: "string \<Rightarrow> intent" where
  "classify t =
     (if REG_EXP_STATUS t then Status
      else if REG_EXP_TODAY t then MenuToday
      else if REG_EXP_TOMORROW t then MenuTomorrow
      else if REG_EXP_ORDER t then OrderCommand
      else if REG_EXP_LEGEND t then Legend
      else if REG_EXP_HELP t then Help
      else if REG_EXP_THANKS t then Thanks
      else Unrecognized)"

fun act :: "'n env \<Rightarrow> mensabot \<Rightarrow> post \<Rightarrow> intent \<Rightarrow> panic + (mensabot \<times> post list)" where
  "act e b p Status = Inr (b, [sendMessage ''Yes I'm up and running!'' (ChannelId p) (PostId p)])"
| "act e b p MenuToday =
     (case getCanteenPlan e CANTEEN_URL_TODAY of
        Inl err \<Rightarrow> Inl err
      | Inr dishes \<Rightarrow>
          Inr (b, [writeDishes e dishes ''**Heute gibt es:**'' (ChannelId p) (PostId p)]))"
| "act e b p MenuTomorrow =
     (case getCanteenPlan e CANTEEN_URL_TOMORROW of
        Inl err \<Rightarrow> Inl err
      | Inr dishes \<Rightarrow>
          Inr (b, [writeDishes e dishes ''**Morgen gibt es:**'' (ChannelId p) (PostId p)]))"
| "act e b p OrderCommand = handleOrder e b p"
| "act e b p Legend = Inr (b, [writeLegend (ChannelId p) (PostId p)])"
| "act e b p Help = Inr (b, [writeHelp (ChannelId p) (PostId p)])"
| "act e b p Thanks = Inr (b, [writeMyPleasure e (ChannelId p) (PostId p)])"
| "act e b p Unrecognized =
     Inr (b, [sendMessage
       ''**What does this even mean?!** (Type 'help' to get a list of available commands)''
       (ChannelId p) (PostId p)])"

section \<open>The specification's notions\<close>

text \<open>The definitions of this section follow the words of the specification; the
  theorems compare them with the code above.\<close>

text \<open>Section 4.4: a keyword as a whole word of the text, in either case of its letters,
  with the start of the text or a non-word character before it and the end of the text or
  a non-word character behind it.\<close>

definition foldEq :: "string \<Rightarrow> string \<Rightarrow> bool" where
  "foldEq kw mid \<longleftrightarrow> (\<exists>parts. list_all2 (\<lambda>c a. a \<in> set (foldAlts c)) kw parts \<and> mid = concat parts)"

definition wholeWord :: "string \<Rightarrow> string \<Rightarrow> bool" where
  "wholeWord kw t \<longleftrightarrow>
     (\<exists>pre mid post. t = pre @ mid @ post \<and> foldEq kw mid
        \<and> (pre = [] \<or> endsNonWord pre) \<and> (post = [] \<or> startsNonWord post))"

text \<open>Section 4.4: the fixed order of the groups, and acting on the first match only.\<close>

definition precedence :: "((string \<Rightarrow> bool) \<times> intent) list" where
  "precedence =
     [(REG_EXP_STATUS, Status), (REG_EXP_TODAY, MenuToday), (REG_EXP_TOMORROW, MenuTomorrow),
      (REG_EXP_ORDER, OrderCommand), (REG_EXP_LEGEND, Legend), (REG_EXP_HELP, Help),
      (REG_EXP_THANKS, Thanks)]"

fun firstMatch :: "((string \<Rightarrow> bool) \<times> intent) list \<Rightarrow> string \<Rightarrow> intent" where
  "firstMatch [] t = Unrecognized"
| "firstMatch ((pat, i) # rest) t = (if pat t then i else firstMatch rest t)"

text \<open>Section 4.4: the shape of an order command, with any mention in front
  (\<open>orderShape\<close>) and with the mention of one name (\<open>orderShapeFor\<close>).\<close>

definition orderShape :: "string \<Rightarrow> bool" where
  "orderShape t \<longleftrightarrow>
     (\<exists>w c sp rest. t = ''@'' @ w @ '' order '' @ c @ sp @ rest
        \<and> w \<noteq> [] \<and> (\<forall>x\<in>set w. isWordByte x)
        \<and> c \<in> {''open'', ''submit'', ''list'', ''close''}
        \<and> (sp = [] \<or> sp = '' '') \<and> CHR 0x0A \<notin> set rest)"

definition orderShapeFor :: "string \<Rightarrow> string \<Rightarrow> bool" where
  "orderShapeFor botMention t \<longleftrightarrow>
     (\<exists>c sp rest. t = ''@'' @ botMention @ '' order '' @ c @ sp @ rest
        \<and> c \<in> {''open'', ''submit'', ''list'', ''close''}
        \<and> (sp = [] \<or> sp = '' '') \<and> CHR 0x0A \<notin> set rest)"

text \<open>Section 3: a favorite by a case-insensitive substring match, both sides in lower
  case.\<close>

definition containsIgnoringCase :: "'n env \<Rightarrow> string \<Rightarrow> string \<Rightarrow> bool" where
  "containsIgnoringCase e nm f = Contains (ToLower e nm) (ToLower e f)"


text \<open>Section 4.3: one row of a listing.\<close>

definition orderRow :: "string \<Rightarrow> string \<Rightarrow> string" where
  "orderRow username order = ''| @'' @ username @ '' | '' @ order @ '' |\<newline>''"

text \<open>The map of submissions is allocated while an order is active: true when the bot
  starts and kept by every command (lemma \<open>handleCommand_ordersAllocated\<close>).\<close>

definition ordersAllocated :: "mensabot \<Rightarrow> bool" where
  "ordersAllocated b \<longleftrightarrow> (orderDetail b = [] \<or> orders b \<noteq> None)"

text \<open>The user lookups that \<^verbatim>\<open>handleOrder\<close> can make for a post succeed: the lookup of
  the author and, while an order is active, the lookups of its owner and of every user
  with a submission.\<close>

definition lookupsSucceed :: "'n env \<Rightarrow> mensabot \<Rightarrow> post \<Rightarrow> bool" where
  "lookupsSucceed e b p \<longleftrightarrow>
     GetUser e (UserId p) \<noteq> None
     \<and> (orderDetail b = []
        \<or> (GetUser e (orderUser b) \<noteq> None
           \<and> list_all (\<lambda>(u, x). GetUser e u \<noteq> None) (rangeOrders e (orders b))))"

section \<open>A concrete environment\<close>

text \<open>
  A small environment to evaluate the definitions on. Nodes are numbers. Node 0 is the
  root of the page; node 20 holds the dish description 21, the prices 22 and 23 and,
  inside the description, the image 24; node 30 holds the dish description 31 and the four
  prices 32 to 35. Today's menu can be fetched, tomorrow's cannot. Users \<open>u1\<close> and \<open>u2\<close>
  are alice and bob.
\<close>

definition demoEnv :: "nat env" where
  "demoEnv =
     \<lparr>Favorites = [''Pizza''],
      ToLower = lowerASCII,
      Parent = (\<lambda>n. if n = 21 then Some 20 else if n = 31 then Some 30 else None),
      Text = (\<lambda>n. if n = 21 then '' Pizza  Margherita ( 1, 2 ) ''
                  else if n = 22 then ''2,50'' @ [CHR 0xC2, CHR 0xA0] @ ''EUR''
                  else if n = 23 then ''3,70'' @ [CHR 0xC2, CHR 0xA0] @ ''EUR''
                  else if n = 31 then ''Suppe'' else ''1,00''),
      Attr = (\<lambda>n k. if n = 24 \<and> k = ''title'' then ''Vegan'' else []),
      FindAllByClass =
        (\<lambda>n c. if n = 0 \<and> c = ''dish-description'' then [21]
                else if n = 20 \<and> c = ''price'' then [22, 23]
                else if n = 30 \<and> c = ''price'' then [32, 33, 34, 35]
                else []),
      FindAllImg = (\<lambda>n. if n = 21 then [24] else []),
      Get = (\<lambda>url. if url = CANTEEN_URL_TODAY then Inr ''<html></html>''
                   else Inl ''connection refused''),
      Parse = (\<lambda>body. Inr 0),
      GetUser = (\<lambda>u. if u = ''u1'' then Some ''alice'' else if u = ''u2'' then Some ''bob'' else None),
      RangeKeys = (\<lambda>m. filter (\<lambda>k. m k \<noteq> None) [''u1'', ''u2'']),
      Intn = (\<lambda>n. 0)\<rparr>"

definition demoPost :: "string \<Rightarrow> string \<Rightarrow> post" where
  "demoPost user msg =
     \<lparr>PostId = ''p1'', UserId = user, ChannelId = ''c1'', RootId = [], Message = msg\<rparr>"

text \<open>The bot after alice has opened an order for pizza and bob has submitted a
  Margherita.\<close>

definition demoOpen :: mensabot where
  "demoOpen =
     \<lparr>orderUser = ''u1'', orderDetail = ''Pizza'',
      orders = Some [''u2'' \<mapsto> ''Margherita'']\<rparr>"

text \<open>A dish as the menu page names it, with a capital letter.\<close>

definition demoDish :: dish where
  "demoDish =
     \<lparr>name = ''Pizza Margherita'', prices = [''2,50'', ''3,70'', []], isVegetarian = True,
      isVegan = False, containsBeef = False, containsPork = False, containsFish = False,
      containsChicken = False, lactoseFree = False\<rparr>"

section \<open>Auxiliary definitions\<close>

text \<open>\<^verbatim>\<open>Replace\<close> of a pair of characters by one character.\<close>

fun rep2 :: "char \<Rightarrow> char \<Rightarrow> char \<Rightarrow> string \<Rightarrow> string" where
  "rep2 a b c (x # y # zs) =
     (if x = a \<and> y = b then c # rep2 a b c zs else x # rep2 a b c (y # zs))"
| "rep2 a b c xs = xs"

section \<open>Dish names: normalization\<close>


lemma Contains_sublist: "Contains s sub \<longleftrightarrow> sublist sub s"
  by (induction s) (auto simp: sublist_Cons_right)


lemma sublist2_single [simp]: "\<not> sublist [p, q] [x]"
  by (auto simp: sublist_Cons_right)

lemma rep2_Nil_iff [simp]: "rep2 a b c s = [] \<longleftrightarrow> s = []"
  by (induction a b c s rule: rep2.induct) auto





lemma Trim_sublist: "sublist (Trim s cs) s"
proof -
  have "sublist (rev (Trim s cs)) (rev s)"
    unfolding Trim_def rev_rev_ident
    by (rule sublist_order.order_trans[OF sublist_dropWhile]) (simp add: sublist_rev_left)
  then show ?thesis by simp
qed





















lemma trimNodeName_two_spaces_at_bracket:
  "trimNodeName ''(  a'' = ''( a'' \<and> trimNodeName (trimNodeName ''(  a'') = ''(a''"
  "trimNodeName ''a  )'' = ''a )'' \<and> trimNodeName (trimNodeName ''a  )'') = ''a)''"
  "trimNodeName ''a  ,'' = ''a ,'' \<and> trimNodeName (trimNodeName ''a  ,'') = ''a,''"
  by (simp_all add: trimNodeName_def Trim_def)



section \<open>Dishes: prices and favorites\<close>

lemma priceLoop_fits:
  "i + length nodes \<le> length ps \<Longrightarrow>
   priceLoop e i nodes ps =
     Inr (take i ps @ map (\<lambda>n. Replace (Text e n) [CHR 0xC2, CHR 0xA0] []) nodes
          @ drop (i + length nodes) ps)"
proof (induction nodes arbitrary: i ps)
  case Nil
  then show ?case by simp
next
  case (Cons n nodes)
  let ?v = "Replace (Text e n) [CHR 0xC2, CHR 0xA0] []"
  from Cons.prems have i: "i < length ps" by simp
  then have "Suc i + length nodes \<le> length (ps[i := ?v])" using Cons.prems by simp
  from Cons.IH[OF this] i show ?case
    by (simp add: take_Suc_conv_app_nth)
qed

lemma priceLoop_overflow:
  "length ps < i + length nodes \<Longrightarrow> i \<le> length ps \<Longrightarrow>
   priceLoop e i nodes ps = Inl (IndexOutOfRange (length ps) (length ps))"
proof (induction nodes arbitrary: i ps)
  case Nil
  then show ?case by simp
next
  case (Cons n nodes)
  show ?case
  proof (cases "i < length ps")
    case True
    let ?ps = "ps[i := Replace (Text e n) [CHR 0xC2, CHR 0xA0] []]"
    from True Cons.prems have "length ?ps < Suc i + length nodes" "Suc i \<le> length ?ps" by simp_all
    from Cons.IH[OF this] True show ?thesis by simp
  next
    case False
    with Cons.prems have "i = length ps" by simp
    then show ?thesis by simp
  qed
qed

lemma imgTitle_prices [simp]: "prices (imgTitle t d) = prices d"
  by (simp add: imgTitle_def)

lemma imgLoop_prices [simp]: "prices (imgLoop e imgs d) = prices d"
  by (induction imgs arbitrary: d) simp_all

lemma dishFromNode_more_than_3_prices:
  assumes "Parent e node = Some parent" and "3 < length (FindAllByClass e parent ''price'')"
  shows "dishFromNode e node = Inl (IndexOutOfRange 3 3)"
  using assms priceLoop_overflow[of "replicate 3 []" 0 "FindAllByClass e parent ''price''" e]
  by (simp add: dishFromNode_def)

text \<open>
  Claim C8. When the container of a dish node holds fewer than 3 price elements,
  \<^verbatim>\<open>dishFromNode\<close> returns a dish with exactly 3 price strings: the texts of the price
  elements in document order, without the non-breaking spaces, then the empty string for
  every missing tier.
\<close>

theorem dishFromNode_fewer_than_3_prices:
  assumes "Parent e node = Some parent" and "length (FindAllByClass e parent ''price'') < 3"
  shows "\<exists>d. dishFromNode e node = Inr d \<and> length (prices d) = 3
           \<and> (\<forall>i<3. prices d ! i =
                 (if i < length (FindAllByClass e parent ''price'')
                  then Replace (Text e (FindAllByClass e parent ''price'' ! i)) [CHR 0xC2, CHR 0xA0] []
                  else []))"
proof -
  let ?nodes = "FindAllByClass e parent ''price''"
  let ?ps = "map (\<lambda>n. Replace (Text e n) [CHR 0xC2, CHR 0xA0] []) ?nodes
             @ drop (length ?nodes) (replicate 3 [])"
  from assms(2) have "0 + length ?nodes \<le> length (replicate 3 ([]::string))" by simp
  from priceLoop_fits[OF this, of e] have loop: "priceLoop e 0 ?nodes (replicate 3 []) = Inr ?ps"
    by simp
  from assms(2) have len: "length ?ps = 3" by simp
  have nth: "?ps ! i = (if i < length ?nodes then Replace (Text e (?nodes ! i)) [CHR 0xC2, CHR 0xA0] [] else [])"
    if "i < 3" for i
    using that assms(2) by (simp add: nth_append)
  from assms(1) loop obtain d where d: "dishFromNode e node = Inr d" and p: "prices d = ?ps"
    by (simp add: dishFromNode_def Let_def)
  from d p len nth show ?thesis by auto
qed

theorem dishFromNode_fewer_than_3_prices_witness:
  "Parent demoEnv 21 = Some 20 \<and> length (FindAllByClass demoEnv 20 ''price'') = 2
   \<and> map_sum id prices (dishFromNode demoEnv 21) = Inr [''2,50EUR'', ''3,70EUR'', []]"
proof -
  have h1: "Parent demoEnv 21 = Some 20" by (simp add: demoEnv_def)
  have l: "FindAllByClass demoEnv 20 ''price'' = [22, 23]" by (simp add: demoEnv_def)
  then have h2: "length (FindAllByClass demoEnv 20 ''price'') < 3" by simp
  have t0: "Replace (Text demoEnv ([22, 23] ! 0)) [CHR 0xC2, CHR 0xA0] [] = ''2,50EUR''"
    and t1: "Replace (Text demoEnv ([22, 23] ! 1)) [CHR 0xC2, CHR 0xA0] [] = ''3,70EUR''"
    by (simp_all add: demoEnv_def)
  from dishFromNode_fewer_than_3_prices[OF h1 h2] obtain d
    where d: "dishFromNode demoEnv 21 = Inr d" and len: "length (prices d) = 3"
      and nth: "\<And>i. i < 3 \<Longrightarrow> prices d ! i =
                 (if i < length [22, 23::nat]
                  then Replace (Text demoEnv ([22, 23] ! i)) [CHR 0xC2, CHR 0xA0] []
                  else [])"
    unfolding l by blast
  from nth[of 0] t0 have p0: "prices d ! 0 = ''2,50EUR''" by simp
  from nth[of 1] t1 have p1: "prices d ! 1 = ''3,70EUR''" by simp
  from nth[of 2] have p2: "prices d ! 2 = []" by simp
  from len obtain a b c where abc: "prices d = [a, b, c]"
    by (auto simp: length_Suc_conv numeral_3_eq_3)
  with p0 p1 p2 have "prices d = [''2,50EUR'', ''3,70EUR'', []]" by simp
  with d h1 l show ?thesis by simp
qed

text \<open>
  Claim C10. The claim (the index into the 3-slot array stays within bounds for any
  number of price elements) fails on the code: the loop of lines 150 to 152 has no bound,
  and the fourth price element of the container is written to \<^verbatim>\<open>prices[3]\<close>. Node 31 of
  the concrete environment has four price elements in its container.
\<close>

theorem dishFromNode_four_prices_panics:
  "dishFromNode demoEnv 31 = Inl (IndexOutOfRange 3 3)"
proof -
  have "Parent demoEnv 31 = Some 30" by (simp add: demoEnv_def)
  moreover have "3 < length (FindAllByClass demoEnv 30 ''price'')" by (simp add: demoEnv_def)
  ultimately show ?thesis by (rule dishFromNode_more_than_3_prices)
qed

lemma isFavoriteLoop_iff: "isFavoriteLoop nm fs \<longleftrightarrow> (\<exists>f\<in>set fs. Contains nm f)"
  by (induction fs) simp_all

text \<open>
  Claim C9. As stated (the match ignores the case of the dish name and of the list
  entry) the claim fails: \<^verbatim>\<open>isFavorite\<close> lower-cases the name only, so the entry
  \<^verbatim>\<open>Pizza\<close> does not make \<^verbatim>\<open>Pizza Margherita\<close> a favorite.
\<close>

theorem isFavorite_entry_case_matters:
  "Favorites demoEnv = [''Pizza''] \<and> name demoDish = ''Pizza Margherita''
   \<and> containsIgnoringCase demoEnv (name demoDish) ''Pizza'' \<and> \<not> isFavorite demoEnv demoDish"
  by code_simp

text \<open>
  Claim C9, amended. A dish is a favorite if and only if its lower-cased name contains
  some entry of the favorites list as it is written, as a substring. The match ignores the
  case of the dish name only; it is the case-insensitive match of the specification when
  every entry of the list is in lower case.
\<close>

theorem isFavorite_iff:
  "(isFavorite e d \<longleftrightarrow> (\<exists>f\<in>set (Favorites e). sublist f (ToLower e (name d))))
   \<and> ((\<forall>f\<in>set (Favorites e). ToLower e f = f) \<longrightarrow>
        (isFavorite e d \<longleftrightarrow> (\<exists>f\<in>set (Favorites e). containsIgnoringCase e (name d) f)))"
  by (simp add: isFavorite_def isFavoriteLoop_iff Contains_sublist containsIgnoringCase_def)

theorem isFavorite_iff_witness:
  "Favorites (demoEnv\<lparr>Favorites := [''pizza'']\<rparr>) = [''pizza'']
   \<and> ToLower (demoEnv\<lparr>Favorites := [''pizza'']\<rparr>) ''pizza'' = ''pizza''
   \<and> containsIgnoringCase (demoEnv\<lparr>Favorites := [''pizza'']\<rparr>) (name demoDish) ''pizza''
   \<and> isFavorite (demoEnv\<lparr>Favorites := [''pizza'']\<rparr>) demoDish"
proof -
  let ?e = "demoEnv\<lparr>Favorites := [''pizza'']\<rparr>"
  have f: "Favorites ?e = [''pizza'']" by simp
  have l: "ToLower ?e ''pizza'' = ''pizza''"
    by code_simp
  have c: "containsIgnoringCase ?e (name demoDish) ''pizza''"
    by code_simp
  from f l have hyp: "\<forall>f\<in>set (Favorites ?e). ToLower ?e f = f" by simp
  from isFavorite_iff[of ?e demoDish] hyp
  have "isFavorite ?e demoDish \<longleftrightarrow> (\<exists>f\<in>set (Favorites ?e). containsIgnoringCase ?e (name demoDish) f)"
    by blast
  with c have fav: "isFavorite ?e demoDish" unfolding f by simp
  from f l c fav show ?thesis by (intro conjI)
qed

section \<open>The order ledger: replies and transitions\<close>

lemma handleCommand_act: "handleCommand e b p = act e b p (classify (Message p))"
  by (simp add: handleCommand_def classify_def)

lemma firstCommand_mem: "firstCommand cs s = Some (c, r) \<Longrightarrow> c \<in> set cs \<and> s = c @ r"
  by (induction cs) (auto simp: stripPrefix_def prefix_def split: if_splits)

lemma Submatch_command:
  "REG_EXP_ORDER_Submatch s = Some (cmd, content) \<Longrightarrow>
   cmd \<in> {''open'', ''submit'', ''list'', ''close''}"
  by (auto simp: REG_EXP_ORDER_Submatch_def Let_def split: option.splits if_splits
      dest!: firstCommand_mem)

lemma orderRows_ok:
  "list_all (\<lambda>(u, x). GetUser e u \<noteq> None) xs \<Longrightarrow>
   \<exists>names. map (\<lambda>(u, x). GetUser e u) xs = map Some names
     \<and> orderRows e xs msg = Inr (msg @ concat (map2 orderRow names (map snd xs)))"
proof (induction xs arbitrary: msg)
  case Nil
  then show ?case by simp
next
  case (Cons ux xs)
  obtain u x where ux: "ux = (u, x)" by (cases ux)
  with Cons.prems obtain n where n: "GetUser e u = Some n" and rest: "list_all (\<lambda>(u, x). GetUser e u \<noteq> None) xs"
    by auto
  from Cons.IH[OF rest, of "msg @ ''| @'' @ n @ '' | '' @ x @ '' |\<newline>''"]
  obtain names where names: "map (\<lambda>(u, x). GetUser e u) xs = map Some names"
    and rows: "orderRows e xs (msg @ ''| @'' @ n @ '' | '' @ x @ '' |\<newline>'')
               = Inr ((msg @ ''| @'' @ n @ '' | '' @ x @ '' |\<newline>'') @ concat (map2 orderRow names (map snd xs)))"
    by blast
  show ?case
    using rows by (intro exI[of _ "n # names"]) (simp add: ux n names orderRow_def)
qed

lemma set_map_filter_keys:
  "set (List.map_filter (\<lambda>k. map_option (Pair k) (m k)) ks) = {(u, x). u \<in> set ks \<and> m u = Some x}"
  by (induction ks) (auto split: option.splits)

lemma rangeOrders_all:
  assumes "set (RangeKeys e m) = dom m"
  shows "set (rangeOrders e (Some m)) = {(u, x). m u = Some x}"
  using assms by (auto simp: rangeOrders_def set_map_filter_keys)

lemma rangeOrders_distinct:
  assumes "distinct (RangeKeys e m)"
  shows "distinct (map fst (rangeOrders e (Some m)))"
proof -
  have "distinct (map fst (List.map_filter (\<lambda>k. map_option (Pair k) (m k)) ks))" if "distinct ks" for ks
    using that
  proof (induction ks)
    case (Cons k ks)
    have "fst ` set (List.map_filter (\<lambda>k. map_option (Pair k) (m k)) ks) \<subseteq> set ks"
      by (auto simp: set_map_filter_keys)
    with Cons show ?case by (auto split: option.splits)
  qed simp
  with assms show ?thesis by (simp add: rangeOrders_def)
qed

lemma handleOrder_ordersAllocated:
  "ordersAllocated b \<Longrightarrow> handleOrder e b p = Inr (b', rs) \<Longrightarrow> ordersAllocated b'"
  by (auto simp: handleOrder_def ordersAllocated_def Let_def split: if_splits option.splits sum.splits)

lemma handleCommand_ordersAllocated:
  "ordersAllocated b \<Longrightarrow> handleCommand e b p = Inr (b', rs) \<Longrightarrow> ordersAllocated b'"
  by (cases "classify (Message p)")
     (auto simp: handleCommand_act split: sum.splits dest: handleOrder_ordersAllocated)

lemma newMensaBot_ordersAllocated: "ordersAllocated newMensaBot"
  by (simp add: ordersAllocated_def newMensaBot_def)

lemma demo_groups:
  "orderGroups ''@mensabot order open'' = (''open'', [])"
  "orderGroups ''@mensabot order submit Margherita'' = (''submit'', ''Margherita'')"
  "orderGroups ''@mensabot order list'' = (''list'', [])"
  "orderGroups ''@mensabot order close'' = (''close'', [])"
  by code_simp+

lemma demo_classify:
  "classify ''@mensabot order open'' = OrderCommand"
  "classify ''@mensabot order submit Margherita'' = OrderCommand"
  "classify ''@mensabot order list'' = OrderCommand"
  "classify ''@mensabot order close'' = OrderCommand"
  by code_simp+

lemma demo_rangeOrders:
  "rangeOrders demoEnv (orders demoOpen) = [(''u2'', ''Margherita'')]"
  by (simp add: rangeOrders_def demoEnv_def demoOpen_def List.map_filter_def)

text \<open>
  Claim C1. As stated (exactly one reply for every order sub-command) the claim fails:
  an accepted \<^verbatim>\<open>submit\<close> stores the text and sends nothing (line 401), and \<^verbatim>\<open>close\<close>
  without an active order sends nothing (line 424).
\<close>

theorem handleOrder_silent_cases:
  "classify (Message (demoPost ''u2'' ''@mensabot order submit Margherita'')) = OrderCommand
   \<and> map_sum id snd
        (handleCommand demoEnv demoOpen (demoPost ''u2'' ''@mensabot order submit Margherita''))
      = Inr []
   \<and> classify (Message (demoPost ''u1'' ''@mensabot order close'')) = OrderCommand
   \<and> map_sum id snd
        (handleCommand demoEnv newMensaBot (demoPost ''u1'' ''@mensabot order close''))
      = Inr []"
  by (simp add: handleCommand_act demoPost_def demo_classify handleOrder_def demo_groups
      demoOpen_def newMensaBot_def)

text \<open>
  Claim C1, amended. For every message that matches the order pattern, when the user
  lookups of the handler succeed and the map of submissions is allocated,
  \<^verbatim>\<open>handleOrder\<close> returns without a panic and every reply it sends is threaded to the
  triggering message, in its channel. It sends exactly one reply for \<^verbatim>\<open>open\<close>, for
  \<^verbatim>\<open>list\<close>, for a rejected \<^verbatim>\<open>submit\<close> and for \<^verbatim>\<open>close\<close> of an active order, and no reply
  for an accepted \<^verbatim>\<open>submit\<close> and for \<^verbatim>\<open>close\<close> without an active order.
\<close>

theorem handleOrder_replies:
  assumes "REG_EXP_ORDER_Submatch (Message p) = Some (cmd, content)"
    and "lookupsSucceed e b p"
    and "ordersAllocated b"
  shows "\<exists>b' rs. handleOrder e b p = Inr (b', rs)
           \<and> list_all (\<lambda>r. ChannelId r = ChannelId p \<and> RootId r = PostId p) rs
           \<and> length rs =
               (if (cmd = ''submit'' \<and> orderDetail b \<noteq> []) \<or> (cmd = ''close'' \<and> orderDetail b = [])
                then 0 else 1)"
proof -
  from assms(1) have g: "orderGroups (Message p) = (cmd, content)"
    by (simp add: orderGroups_def)
  from assms(2) obtain author where author: "GetUser e (UserId p) = Some author"
    by (auto simp: lookupsSucceed_def)
  from assms(2) have owner: "\<exists>owner. GetUser e (orderUser b) = Some owner" if "orderDetail b \<noteq> []"
    using that by (auto simp: lookupsSucceed_def)
  from assms(2) have subs: "list_all (\<lambda>(u, x). GetUser e u \<noteq> None) (rangeOrders e (orders b))"
    if "orderDetail b \<noteq> []"
    using that by (auto simp: lookupsSucceed_def)
  have rows: "\<exists>msg. orderRows e (rangeOrders e (orders b)) msg0 = Inr msg"
    if "orderDetail b \<noteq> []" for msg0
    using orderRows_ok[OF subs[OF that]] by blast
  from Submatch_command[OF assms(1)]
  consider "cmd = ''open''" | "cmd = ''submit''" | "cmd = ''list''" | "cmd = ''close''"
    by auto
  then show ?thesis
  proof cases
    case 1
    then show ?thesis
      by (simp add: handleOrder_def g author sendMessage_def)
  next
    case 2
    show ?thesis
    proof (cases "orderDetail b = []")
      case True
      with 2 show ?thesis by (simp add: handleOrder_def g sendMessage_def)
    next
      case False
      with assms(3) obtain m where "orders b = Some m" by (auto simp: ordersAllocated_def)
      with 2 False show ?thesis by (simp add: handleOrder_def g)
    qed
  next
    case 3
    show ?thesis
    proof (cases "orderDetail b = []")
      case True
      with 3 show ?thesis by (simp add: handleOrder_def g sendMessage_def)
    next
      case False
      from rows[OF False] obtain msg where
        "orderRows e (rangeOrders e (orders b))
           (''**[Active order]** '' @ orderDetail b @ ''\<newline>\<newline>'' @ ''| User | Order |\<newline>'' @ ''| -- | -- |\<newline>'')
         = Inr msg"
        by blast
      with 3 False show ?thesis by (simp add: handleOrder_def g sendMessage_def)
    qed
  next
    case 4
    show ?thesis
    proof (cases "orderDetail b = []")
      case True
      with 4 show ?thesis by (simp add: handleOrder_def g)
    next
      case False
      from rows[OF False] obtain msg where
        "orderRows e (rangeOrders e (orders b))
           (''**Closing** active order:\<newline>\<newline>'' @ ''| User | Order |\<newline>'' @ ''| -- | -- |\<newline>'')
         = Inr msg"
        by blast
      moreover from owner[OF False] obtain owner where "GetUser e (orderUser b) = Some owner" by blast
      ultimately show ?thesis using 4 False by (simp add: handleOrder_def g sendMessage_def)
    qed
  qed
qed

theorem handleOrder_replies_witness:
  "REG_EXP_ORDER_Submatch (Message (demoPost ''u2'' ''@mensabot order list'')) = Some (''list'', [])
   \<and> lookupsSucceed demoEnv demoOpen (demoPost ''u2'' ''@mensabot order list'')
   \<and> ordersAllocated demoOpen
   \<and> map_sum id (map RootId) (map_sum id snd
        (handleOrder demoEnv demoOpen (demoPost ''u2'' ''@mensabot order list''))) = Inr [''p1'']"
proof -
  let ?p = "demoPost ''u2'' ''@mensabot order list''"
  have h1: "REG_EXP_ORDER_Submatch (Message ?p) = Some (''list'', [])"
    unfolding demoPost_def by code_simp
  have h2: "lookupsSucceed demoEnv demoOpen ?p"
    unfolding lookupsSucceed_def demo_rangeOrders
    by (simp add: demoEnv_def demoOpen_def demoPost_def)
  have h3: "ordersAllocated demoOpen"
    by (simp add: ordersAllocated_def demoOpen_def)
  from handleOrder_replies[OF h1 h2 h3] obtain b' rs
    where r: "handleOrder demoEnv demoOpen ?p = Inr (b', rs)"
      and t: "list_all (\<lambda>r. ChannelId r = ChannelId ?p \<and> RootId r = PostId ?p) rs"
      and n: "length rs = 1"
    by auto
  from n obtain r1 where "rs = [r1]" by (auto simp: length_Suc_conv)
  with t have "map RootId rs = [''p1'']" by (simp add: demoPost_def)
  with r h1 h2 h3 show ?thesis by simp
qed

lemma handleOrder_owner_of_active_order:
  assumes "UserId p \<noteq> []" and "orderDetail b = [] \<or> orderUser b \<noteq> []"
    and "handleOrder e b p = Inr (b', rs)"
  shows "orderDetail b' = [] \<or> orderUser b' \<noteq> []"
  using assms
  by (auto simp: handleOrder_def Let_def split: if_splits option.splits sum.splits)

text \<open>
  Claim C2. The claim (owner and description are both empty or both non-empty in every
  reachable state, for any content including the empty string) is what the ledger is
  meant to keep, and the code breaks it: \<^verbatim>\<open>open\<close> with an empty description, on the bot as
  it starts, stores the owner beside an empty description and announces the order as
  opened, although \<^verbatim>\<open>orderDetail\<close> is what every command tests for an active order. The
  \<^verbatim>\<open>submit\<close> that follows is rejected for want of an active order.
\<close>

theorem handleOrder_open_empty_description:
  "handleCommand demoEnv newMensaBot (demoPost ''u1'' ''@mensabot order open'')
     = Inr (\<lparr>orderUser = ''u1'', orderDetail = [], orders = Some Map.empty\<rparr>,
            [sendMessage ''#FoodOrder opened by @alice: '' ''c1'' ''p1''])
   \<and> handleCommand demoEnv \<lparr>orderUser = ''u1'', orderDetail = [], orders = Some Map.empty\<rparr>
        (demoPost ''u2'' ''@mensabot order submit Margherita'')
     = Inr (\<lparr>orderUser = ''u1'', orderDetail = [], orders = Some Map.empty\<rparr>,
            [sendMessage ''Cannot submit without active order'' ''c1'' ''p1''])"
  by (simp add: handleCommand_act demoPost_def demo_classify handleOrder_def demo_groups
      newMensaBot_def demoEnv_def)

text \<open>
  Claim C3. As stated (close by the owner clears the owner, the description and the
  submission map) the claim fails: lines 432 and 433 clear the owner and the description
  only. After alice closes her order the map still holds bob's submission; it is replaced
  by an empty map when the next order is opened (line 391).
\<close>

theorem handleOrder_close_keeps_map:
  "handleCommand demoEnv demoOpen (demoPost ''u1'' ''@mensabot order close'')
     = Inr (\<lparr>orderUser = [], orderDetail = [], orders = Some [''u2'' \<mapsto> ''Margherita'']\<rparr>,
            [sendMessage
               (''**Closing** active order:\<newline>\<newline>| User | Order |\<newline>| -- | -- |\<newline>''
                @ ''| @bob | Margherita |\<newline>'')
               ''c1'' ''p1''])
   \<and> [''u2'' \<mapsto> ''Margherita''] ''u2'' = Some ''Margherita''"
proof -
  have "rangeOrders demoEnv (Some [''u2'' \<mapsto> ''Margherita'']) = [(''u2'', ''Margherita'')]"
    using demo_rangeOrders by (simp add: demoOpen_def)
  then show ?thesis
    by (simp add: handleCommand_act demoPost_def demo_classify handleOrder_def demo_groups
        demoOpen_def) (simp add: demoEnv_def)
qed

text \<open>The lookups of the listing are dereferenced unchecked (lines 429 and 430): when
  bob's lookup fails, close by the owner is a panic and nothing is cleared. The amended
  claim below is about the lookups that succeed.\<close>

lemma handleOrder_close_lookup_fails:
  "handleOrder (demoEnv\<lparr>GetUser := (\<lambda>u. if u = ''u1'' then Some ''alice'' else None)\<rparr>) demoOpen
     (demoPost ''u1'' ''@mensabot order close'') = Inl NilDereference"
proof -
  have "rangeOrders (demoEnv\<lparr>GetUser := (\<lambda>u. if u = ''u1'' then Some ''alice'' else None)\<rparr>)
          (orders demoOpen) = [(''u2'', ''Margherita'')]"
    by (simp add: rangeOrders_def demoEnv_def demoOpen_def List.map_filter_def)
  then show ?thesis
    by (simp add: handleOrder_def demoPost_def demo_groups) (simp add: demoOpen_def)
qed

text \<open>
  Claim C3, amended. When the owner of an active order issues \<^verbatim>\<open>close\<close> and the user
  lookup of every user with a submission succeeds, \<^verbatim>\<open>handleOrder\<close> sends one reply,
  threaded to the triggering message: the closing header and one row for every entry that
  the loop over the submission map visits (every submission once, when the loop visits
  every key of the map once). It then clears the owner and the description, which ends the
  order; the submission map itself is left as it is, and the next \<^verbatim>\<open>open\<close> whose author
  lookup succeeds replaces it by an empty map.
\<close>

theorem handleOrder_close_by_owner:
  assumes "REG_EXP_ORDER_Submatch (Message p) = Some (''close'', content)"
    and "orderDetail b \<noteq> []" and "orderUser b = UserId p"
    and "list_all (\<lambda>(u, x). GetUser e u \<noteq> None) (rangeOrders e (orders b))"
  shows "\<exists>names b'.
           map (\<lambda>(u, x). GetUser e u) (rangeOrders e (orders b)) = map Some names
           \<and> handleOrder e b p =
               Inr (b', [sendMessage
                          (''**Closing** active order:\<newline>\<newline>| User | Order |\<newline>| -- | -- |\<newline>''
                           @ concat (map2 orderRow names (map snd (rangeOrders e (orders b)))))
                          (ChannelId p) (PostId p)])
           \<and> b' = b\<lparr>orderDetail := [], orderUser := []\<rparr>
           \<and> orderUser b' = [] \<and> orderDetail b' = [] \<and> orders b' = orders b
           \<and> (\<forall>m. orders b = Some m \<and> distinct (RangeKeys e m) \<and> set (RangeKeys e m) = dom m \<longrightarrow>
                  distinct (map fst (rangeOrders e (orders b)))
                  \<and> set (rangeOrders e (orders b)) = {(u, x). m u = Some x})
           \<and> (\<forall>q cnt author.
                  REG_EXP_ORDER_Submatch (Message q) = Some (''open'', cnt)
                  \<and> GetUser e (UserId q) = Some author \<longrightarrow>
                  handleOrder e b' q =
                    Inr (\<lparr>orderUser = UserId q, orderDetail = cnt, orders = Some Map.empty\<rparr>,
                         [sendMessage (''#FoodOrder opened by @'' @ author @ '': '' @ cnt)
                            (ChannelId q) (PostId q)]))"
proof -
  from assms(1) have g: "orderGroups (Message p) = (''close'', content)"
    by (simp add: orderGroups_def)
  from orderRows_ok[OF assms(4),
      of "''**Closing** active order:\<newline>\<newline>'' @ ''| User | Order |\<newline>'' @ ''| -- | -- |\<newline>''"]
  obtain names where names: "map (\<lambda>(u, x). GetUser e u) (rangeOrders e (orders b)) = map Some names"
    and rows: "orderRows e (rangeOrders e (orders b))
                 (''**Closing** active order:\<newline>\<newline>'' @ ''| User | Order |\<newline>'' @ ''| -- | -- |\<newline>'')
               = Inr ((''**Closing** active order:\<newline>\<newline>'' @ ''| User | Order |\<newline>'' @ ''| -- | -- |\<newline>'')
                      @ concat (map2 orderRow names (map snd (rangeOrders e (orders b)))))"
    by blast
  have all: "\<forall>m. orders b = Some m \<and> distinct (RangeKeys e m) \<and> set (RangeKeys e m) = dom m \<longrightarrow>
               distinct (map fst (rangeOrders e (orders b)))
               \<and> set (rangeOrders e (orders b)) = {(u, x). m u = Some x}"
    using rangeOrders_all rangeOrders_distinct by metis
  define b' where "b' = b\<lparr>orderDetail := [], orderUser := []\<rparr>"
  have closed: "handleOrder e b p =
          Inr (b', [sendMessage
                  (''**Closing** active order:\<newline>\<newline>| User | Order |\<newline>| -- | -- |\<newline>''
                   @ concat (map2 orderRow names (map snd (rangeOrders e (orders b)))))
                  (ChannelId p) (PostId p)])"
    using rows assms(2,3) by (simp add: handleOrder_def g b'_def)
  have reopen: "handleOrder e b' q =
          Inr (\<lparr>orderUser = UserId q, orderDetail = cnt, orders = Some Map.empty\<rparr>,
               [sendMessage (''#FoodOrder opened by @'' @ author @ '': '' @ cnt)
                  (ChannelId q) (PostId q)])"
    if "REG_EXP_ORDER_Submatch (Message q) = Some (''open'', cnt)"
      and "GetUser e (UserId q) = Some author" for q cnt author
    using that by (simp add: handleOrder_def orderGroups_def b'_def)
  have fields: "b' = b\<lparr>orderDetail := [], orderUser := []\<rparr>" "orderUser b' = []"
    "orderDetail b' = []" "orders b' = orders b"
    by (simp_all add: b'_def)
  from names closed fields all reopen show ?thesis by blast
qed

theorem handleOrder_close_by_owner_witness:
  "REG_EXP_ORDER_Submatch (Message (demoPost ''u1'' ''@mensabot order close'')) = Some (''close'', [])
   \<and> orderDetail demoOpen = ''Pizza'' \<and> orderUser demoOpen = UserId (demoPost ''u1'' ''@mensabot order close'')
   \<and> rangeOrders demoEnv (orders demoOpen) = [(''u2'', ''Margherita'')]
   \<and> GetUser demoEnv ''u2'' = Some ''bob''
   \<and> map_sum id (map Message) (map_sum id snd
        (handleOrder demoEnv demoOpen (demoPost ''u1'' ''@mensabot order close'')))
      = Inr [''**Closing** active order:\<newline>\<newline>| User | Order |\<newline>| -- | -- |\<newline>| @bob | Margherita |\<newline>'']
   \<and> REG_EXP_ORDER_Submatch (Message (demoPost ''u2'' ''@mensabot order open Sushi'')) = Some (''open'', ''Sushi'')
   \<and> handleOrder demoEnv (demoOpen\<lparr>orderDetail := [], orderUser := []\<rparr>)
        (demoPost ''u2'' ''@mensabot order open Sushi'')
      = Inr (\<lparr>orderUser = ''u2'', orderDetail = ''Sushi'', orders = Some Map.empty\<rparr>,
             [sendMessage ''#FoodOrder opened by @bob: Sushi'' ''c1'' ''p1''])"
proof -
  let ?p = "demoPost ''u1'' ''@mensabot order close''"
  let ?q = "demoPost ''u2'' ''@mensabot order open Sushi''"
  have h1: "REG_EXP_ORDER_Submatch (Message ?p) = Some (''close'', [])"
    unfolding demoPost_def by code_simp
  have h2: "orderDetail demoOpen \<noteq> []" and d: "orderDetail demoOpen = ''Pizza''"
    by (simp_all add: demoOpen_def)
  have h3: "orderUser demoOpen = UserId ?p" by (simp add: demoOpen_def demoPost_def)
  have u: "GetUser demoEnv ''u2'' = Some ''bob''" by (simp add: demoEnv_def)
  have h4: "list_all (\<lambda>(u, x). GetUser demoEnv u \<noteq> None) (rangeOrders demoEnv (orders demoOpen))"
    unfolding demo_rangeOrders by (simp add: u)
  have o1: "REG_EXP_ORDER_Submatch (Message ?q) = Some (''open'', ''Sushi'')"
    unfolding demoPost_def by code_simp
  have o2: "GetUser demoEnv (UserId ?q) = Some ''bob''" by (simp add: demoPost_def u)
  from handleOrder_close_by_owner[OF h1 h2 h3 h4] obtain names b'
    where names: "map (\<lambda>(u, x). GetUser demoEnv u) (rangeOrders demoEnv (orders demoOpen)) = map Some names"
      and r: "handleOrder demoEnv demoOpen ?p =
               Inr (b', [sendMessage
                          (''**Closing** active order:\<newline>\<newline>| User | Order |\<newline>| -- | -- |\<newline>''
                           @ concat (map2 orderRow names (map snd (rangeOrders demoEnv (orders demoOpen)))))
                          (ChannelId ?p) (PostId ?p)])"
      and b': "b' = demoOpen\<lparr>orderDetail := [], orderUser := []\<rparr>"
      and reopen: "\<And>q cnt author.
             REG_EXP_ORDER_Submatch (Message q) = Some (''open'', cnt)
             \<and> GetUser demoEnv (UserId q) = Some author \<Longrightarrow>
             handleOrder demoEnv b' q =
               Inr (\<lparr>orderUser = UserId q, orderDetail = cnt, orders = Some Map.empty\<rparr>,
                    [sendMessage (''#FoodOrder opened by @'' @ author @ '': '' @ cnt)
                       (ChannelId q) (PostId q)])"
    by blast
  from names have "map Some names = [Some ''bob'']" unfolding demo_rangeOrders by (simp add: u)
  then have "names = [''bob'']" by (cases names) auto
  with r have m: "map_sum id (map Message) (map_sum id snd (handleOrder demoEnv demoOpen ?p))
      = Inr [''**Closing** active order:\<newline>\<newline>| User | Order |\<newline>| -- | -- |\<newline>| @bob | Margherita |\<newline>'']"
    unfolding demo_rangeOrders by (simp add: orderRow_def sendMessage_def)
  from reopen[of ?q "''Sushi''" "''bob''"] o1 o2
  have "handleOrder demoEnv b' ?q =
          Inr (\<lparr>orderUser = UserId ?q, orderDetail = ''Sushi'', orders = Some Map.empty\<rparr>,
               [sendMessage (''#FoodOrder opened by @'' @ ''bob'' @ '': '' @ ''Sushi'')
                  (ChannelId ?q) (PostId ?q)])"
    by blast
  then have n: "handleOrder demoEnv (demoOpen\<lparr>orderDetail := [], orderUser := []\<rparr>) ?q
      = Inr (\<lparr>orderUser = ''u2'', orderDetail = ''Sushi'', orders = Some Map.empty\<rparr>,
             [sendMessage ''#FoodOrder opened by @bob: Sushi'' ''c1'' ''p1''])"
    unfolding b' by (simp add: demoPost_def)
  from h1 d h3 u demo_rangeOrders m o1 n show ?thesis by (intro conjI)
qed

section \<open>Regular expressions: what the patterns match\<close>

lemma byte_char_of: "byte (char_of n) = n mod 256"
  by (simp add: byte_def)

lemma foldAlts_nonempty: "[] \<notin> set (foldAlts c)"
  by (simp add: foldAlts_def Let_def kelvin_def longS_def)

lemma char_neq_byte: "byte x \<noteq> byte y \<Longrightarrow> x \<noteq> y"
  by auto

lemma foldAlts_heads: "distinct (map hd (foldAlts c))"
proof -
  have "l \<noteq> char_of (byte l - 32)" if "97 \<le> byte l" "byte l \<le> 122" for l
  proof (rule char_neq_byte)
    from that have "(byte l - 32) mod 256 = byte l - 32" by simp
    with that show "byte l \<noteq> byte (char_of (byte l - 32))" by (simp add: byte_char_of)
  qed
  then show ?thesis
    by (simp add: foldAlts_def Let_def kelvin_def longS_def)
qed

lemma stripFirst_Some:
  "stripFirst as t = Some r \<Longrightarrow> \<exists>a\<in>set as. t = a @ r"
  by (induction as) (auto simp: prefix_def split: if_splits)

lemma stripFirst_mem:
  assumes "distinct (map hd as)" "[] \<notin> set as" "a \<in> set as"
  shows "stripFirst as (a @ r) = Some r"
  using assms
proof (induction as)
  case Nil
  then show ?case by simp
next
  case (Cons a0 as)
  show ?case
  proof (cases "a0 = a")
    case True
    then show ?thesis by simp
  next
    case False
    with Cons.prems have a: "a \<in> set as" by simp
    have "\<not> prefix a0 (a @ r)"
    proof
      assume "prefix a0 (a @ r)"
      moreover from Cons.prems a have "a0 \<noteq> []" "a \<noteq> []" by auto
      ultimately have "hd a0 = hd a" by (cases a0; cases a) auto
      moreover from Cons.prems(1) a have "hd a0 \<noteq> hd a" by auto
      ultimately show False by simp
    qed
    moreover from Cons.IH Cons.prems a have "stripFirst as (a @ r) = Some r" by simp
    ultimately show ?thesis by simp
  qed
qed

lemma foldEq_Nil [simp]: "foldEq [] mid \<longleftrightarrow> mid = []"
  by (auto simp: foldEq_def)

lemma foldEq_Cons:
  "foldEq (c # cs) mid \<longleftrightarrow> (\<exists>a mid'. a \<in> set (foldAlts c) \<and> foldEq cs mid' \<and> mid = a @ mid')"
proof
  assume "foldEq (c # cs) mid"
  then obtain parts where "list_all2 (\<lambda>c a. a \<in> set (foldAlts c)) (c # cs) parts" "mid = concat parts"
    by (auto simp: foldEq_def)
  then obtain a ps where "a \<in> set (foldAlts c)" "list_all2 (\<lambda>c a. a \<in> set (foldAlts c)) cs ps"
    "mid = a @ concat ps"
    by (auto simp: list_all2_Cons1)
  then show "\<exists>a mid'. a \<in> set (foldAlts c) \<and> foldEq cs mid' \<and> mid = a @ mid'"
    unfolding foldEq_def by blast
next
  assume "\<exists>a mid'. a \<in> set (foldAlts c) \<and> foldEq cs mid' \<and> mid = a @ mid'"
  then obtain a ps where "a \<in> set (foldAlts c)" "list_all2 (\<lambda>c a. a \<in> set (foldAlts c)) cs ps"
    "mid = a @ concat ps"
    by (auto simp: foldEq_def)
  then show "foldEq (c # cs) mid"
    unfolding foldEq_def by (intro exI[of _ "a # ps"]) simp
qed

lemma matchFold_iff: "matchFold kw t = Some r \<longleftrightarrow> (\<exists>mid. t = mid @ r \<and> foldEq kw mid)"
proof (induction kw arbitrary: t)
  case Nil
  then show ?case by auto
next
  case (Cons c cs)
  show ?case
  proof
    assume "matchFold (c # cs) t = Some r"
    then obtain t' where s: "stripFirst (foldAlts c) t = Some t'" and m: "matchFold cs t' = Some r"
      by (auto split: option.splits)
    from stripFirst_Some[OF s] obtain a where a: "a \<in> set (foldAlts c)" "t = a @ t'" by blast
    from m Cons.IH obtain mid' where "t' = mid' @ r" "foldEq cs mid'" by blast
    with a show "\<exists>mid. t = mid @ r \<and> foldEq (c # cs) mid"
      by (intro exI[of _ "a @ mid'"]) (auto simp: foldEq_Cons)
  next
    assume "\<exists>mid. t = mid @ r \<and> foldEq (c # cs) mid"
    then obtain a mid' where a: "a \<in> set (foldAlts c)" and f: "foldEq cs mid'" and t: "t = a @ mid' @ r"
      by (auto simp: foldEq_Cons)
    from stripFirst_mem[OF foldAlts_heads foldAlts_nonempty a]
    have "stripFirst (foldAlts c) t = Some (mid' @ r)" by (simp add: t)
    moreover from f Cons.IH have "matchFold cs (mid' @ r) = Some r" by blast
    ultimately show "matchFold (c # cs) t = Some r" by simp
  qed
qed

lemma keywordAt_iff:
  "keywordAt kws t \<longleftrightarrow>
     (\<exists>kw\<in>set kws. \<exists>mid post. t = mid @ post \<and> foldEq kw mid \<and> (post = [] \<or> startsNonWord post))"
proof -
  have "(case matchFold kw t of None \<Rightarrow> False | Some r \<Rightarrow> r = [] \<or> startsNonWord r)
        \<longleftrightarrow> (\<exists>mid post. t = mid @ post \<and> foldEq kw mid \<and> (post = [] \<or> startsNonWord post))"
    (is "?L \<longleftrightarrow> ?R") for kw
  proof
    assume ?L
    then obtain r where r: "matchFold kw t = Some r" "r = [] \<or> startsNonWord r"
      by (cases "matchFold kw t") auto
    from r(1) obtain mid where "t = mid @ r" "foldEq kw mid"
      unfolding matchFold_iff by blast
    with r(2) show ?R by blast
  next
    assume ?R
    then obtain mid post where m: "t = mid @ post" "foldEq kw mid" "post = [] \<or> startsNonWord post"
      by blast
    then have "matchFold kw t = Some post" unfolding matchFold_iff by blast
    with m(3) show ?L by simp
  qed
  then show ?thesis by (simp add: keywordAt_def list_ex_iff)
qed

lemma MatchKeywords_iff: "MatchKeywords kws t \<longleftrightarrow> (\<exists>kw\<in>set kws. wholeWord kw t)"
proof
  assume "MatchKeywords kws t"
  then have "\<exists>i\<in>set [0..<Suc (length t)]. (i = 0 \<or> endsNonWord (take i t)) \<and> keywordAt kws (drop i t)"
    by (simp add: MatchKeywords_def list_ex_iff)
  then obtain i where i1: "i \<in> set [0..<Suc (length t)]" and i2: "i = 0 \<or> endsNonWord (take i t)"
    and i3: "keywordAt kws (drop i t)"
    by blast
  from i3 obtain kw mid post where k: "kw \<in> set kws" "drop i t = mid @ post" "foldEq kw mid"
    "post = [] \<or> startsNonWord post"
    unfolding keywordAt_iff by blast
  have "t = take i t @ mid @ post" using k(2) by (metis append_take_drop_id)
  moreover from i2 have "take i t = [] \<or> endsNonWord (take i t)" by auto
  ultimately have "wholeWord kw t" using k(3,4) unfolding wholeWord_def by blast
  with k(1) show "\<exists>kw\<in>set kws. wholeWord kw t" by blast
next
  assume "\<exists>kw\<in>set kws. wholeWord kw t"
  then obtain kw pre mid post where k: "kw \<in> set kws" "t = pre @ mid @ post" "foldEq kw mid"
    "pre = [] \<or> endsNonWord pre" "post = [] \<or> startsNonWord post"
    unfolding wholeWord_def by blast
  let ?i = "length pre"
  from k(2) have d: "drop ?i t = mid @ post" and tk: "take ?i t = pre" by simp_all
  from k(1,3,5) have "keywordAt kws (mid @ post)" unfolding keywordAt_iff by blast
  with d have 1: "keywordAt kws (drop ?i t)" by simp
  from k(4) tk have 2: "?i = 0 \<or> endsNonWord (take ?i t)" by auto
  from k(2) have 3: "?i \<in> set [0..<Suc (length t)]" by simp
  from 1 2 3 show "MatchKeywords kws t"
    unfolding MatchKeywords_def list_ex_iff by blast
qed

lemma stripPrefix_iff: "stripPrefix p s = Some r \<longleftrightarrow> s = p @ r"
  by (auto simp: stripPrefix_def prefix_def)

lemma firstCommand_order:
  assumes "c \<in> set [''open'', ''submit'', ''list'', ''close'']"
  shows "firstCommand [''open'', ''submit'', ''list'', ''close''] (c @ r) = Some (c, r)"
  using assms by (auto simp: stripPrefix_def)

lemma space_not_word: "\<not> isWordByte CHR '' ''"
  by (simp add: isWordByte_def byte_def)

lemma content_no_newline:
  assumes "sp = [] \<or> sp = '' ''" and "CHR 0x0A \<notin> set rest"
  shows "CHR 0x0A \<notin> set (case stripPrefix '' '' (sp @ rest) of Some r3 \<Rightarrow> r3 | None \<Rightarrow> sp @ rest)"
  using assms by (cases rest) (auto simp: stripPrefix_def)

lemma REG_EXP_ORDER_shape: "REG_EXP_ORDER t \<longleftrightarrow> orderShape t"
proof
  assume "REG_EXP_ORDER t"
  then obtain cmd content where m: "REG_EXP_ORDER_Submatch t = Some (cmd, content)"
    by (auto simp: REG_EXP_ORDER_def)
  note defs = REG_EXP_ORDER_Submatch_def
  from m obtain r0' where s0: "stripPrefix ''@'' t = Some r0'"
    by (cases "stripPrefix ''@'' t") (auto simp: defs)
  with m have w': "takeWhile isWordByte r0' \<noteq> []"
    by (auto simp: defs split: if_splits)
  with m s0 obtain r1' where s1: "stripPrefix '' order '' (dropWhile isWordByte r0') = Some r1'"
    by (cases "stripPrefix '' order '' (dropWhile isWordByte r0')") (auto simp: defs)
  with m s0 w' obtain c0 r2' where c': "firstCommand [''open'', ''submit'', ''list'', ''close''] r1' = Some (c0, r2')"
    by (cases "firstCommand [''open'', ''submit'', ''list'', ''close''] r1'")
       (auto simp del: firstCommand.simps simp: defs)
  with m s0 w' s1 have fin: "cmd = c0"
    "content = (case stripPrefix '' '' r2' of Some r3 \<Rightarrow> r3 | None \<Rightarrow> r2')"
    "CHR 0x0A \<notin> set content"
    by (auto simp del: firstCommand.simps simp: defs Let_def split: if_splits)
  define r0 r1 r2 where "r0 = r0'" and "r1 = r1'" and "r2 = r2'"
  have r0: "t = ''@'' @ r0" using s0 by (simp add: stripPrefix_iff r0_def)
  have w: "takeWhile isWordByte r0 \<noteq> []" using w' by (simp add: r0_def)
  have r1: "dropWhile isWordByte r0 = '' order '' @ r1" using s1 by (simp add: stripPrefix_iff r0_def r1_def)
  have c: "firstCommand [''open'', ''submit'', ''list'', ''close''] r1 = Some (cmd, r2)"
    using c' fin(1) by (simp add: r1_def r2_def)
  have content: "content = (case stripPrefix '' '' r2 of Some r3 \<Rightarrow> r3 | None \<Rightarrow> r2)"
    using fin(2) unfolding r2_def .
  have nl: "CHR 0x0A \<notin> set content" by (rule fin(3))
  from firstCommand_mem[OF c] have cmd: "cmd \<in> {''open'', ''submit'', ''list'', ''close''}" "r1 = cmd @ r2"
    by auto
  obtain sp where sp: "sp = [] \<or> sp = '' ''" "r2 = sp @ content"
  proof (cases "stripPrefix '' '' r2")
    case None
    with content that[of "[]"] show ?thesis by simp
  next
    case (Some r3)
    with content that[of "'' ''"] show ?thesis by (simp add: stripPrefix_iff)
  qed
  have "r0 = takeWhile isWordByte r0 @ '' order '' @ cmd @ sp @ content"
    using takeWhile_dropWhile_id[of isWordByte r0] r1 cmd(2) sp(2) by simp
  with r0 have "t = ''@'' @ takeWhile isWordByte r0 @ '' order '' @ cmd @ sp @ content" by simp
  moreover have "\<forall>x\<in>set (takeWhile isWordByte r0). isWordByte x"
    by (auto dest: set_takeWhileD)
  ultimately show "orderShape t"
    unfolding orderShape_def using w cmd(1) sp(1) nl by blast
next
  assume "orderShape t"
  then obtain w c sp rest
    where t: "t = ''@'' @ w @ '' order '' @ c @ sp @ rest" and w: "w \<noteq> []" "\<forall>x\<in>set w. isWordByte x"
      and c: "c \<in> {''open'', ''submit'', ''list'', ''close''}"
      and sp: "sp = [] \<or> sp = '' ''" and nl: "CHR 0x0A \<notin> set rest"
    unfolding orderShape_def by blast
  let ?r0 = "w @ '' order '' @ c @ sp @ rest"
  have s0: "stripPrefix ''@'' t = Some ?r0" by (simp add: stripPrefix_iff t)
  have tw: "takeWhile isWordByte ?r0 = w"
    using w(2) space_not_word by (simp add: takeWhile_append2)
  have dw: "dropWhile isWordByte ?r0 = '' order '' @ c @ sp @ rest"
    using w(2) space_not_word by (simp add: dropWhile_append2)
  have s1: "stripPrefix '' order '' ('' order '' @ c @ sp @ rest) = Some (c @ sp @ rest)"
    unfolding stripPrefix_iff by simp
  from c have fc: "firstCommand [''open'', ''submit'', ''list'', ''close''] (c @ sp @ rest) = Some (c, sp @ rest)"
    by (intro firstCommand_order) simp
  from content_no_newline[OF sp nl] s0 tw dw s1 fc w(1)
  have "REG_EXP_ORDER_Submatch t \<noteq> None"
    unfolding REG_EXP_ORDER_Submatch_def by (simp add: Let_def)
  then show "REG_EXP_ORDER t" by (simp add: REG_EXP_ORDER_def)
qed

section \<open>Commands: precedence, order commands and menu failures\<close>

lemma classify_firstMatch: "classify t = firstMatch precedence t"
  by (simp add: classify_def precedence_def)

lemma REG_EXP_STATUS_iff:
  "REG_EXP_STATUS t \<longleftrightarrow> wholeWord ''alive'' t \<or> wholeWord ''running'' t \<or> wholeWord ''up'' t"
  by (simp add: REG_EXP_STATUS_def MatchKeywords_iff)

lemma REG_EXP_TODAY_iff:
  "REG_EXP_TODAY t \<longleftrightarrow> wholeWord ''heute'' t \<or> wholeWord ''today'' t \<or> wholeWord ''hunger'' t"
  by (simp add: REG_EXP_TODAY_def MatchKeywords_iff)

lemma writeDishes_not_writeHelp:
  "writeDishes e dishes ''**Heute gibt es:**'' c r \<noteq> writeHelp c' r'"
  by (simp add: writeDishes_def writeHelp_def sendMessage_def helpText_def)

lemma act_MenuToday_not_Help: "act e b p MenuToday \<noteq> act e b p Help"
  by (cases "getCanteenPlan e CANTEEN_URL_TODAY") (simp_all add: writeDishes_not_writeHelp)

text \<open>
  Claim C5. \<^verbatim>\<open>handleCommand\<close> acts on the first pattern that matches, in the order
  Status, Menu-today, Menu-tomorrow, Order, Legend, Help, Thanks, and on nothing else. A
  text that contains \<^verbatim>\<open>help\<close> and \<^verbatim>\<open>today\<close> as whole words and none of the Status
  keywords as a whole word is handled as Menu-today, not as Help.
\<close>

theorem handleCommand_precedence:
  "handleCommand e b p = act e b p (firstMatch precedence (Message p))
   \<and> (wholeWord ''help'' (Message p) \<and> wholeWord ''today'' (Message p)
        \<and> \<not> wholeWord ''alive'' (Message p) \<and> \<not> wholeWord ''running'' (Message p)
        \<and> \<not> wholeWord ''up'' (Message p)
      \<longrightarrow> firstMatch precedence (Message p) = MenuToday
          \<and> handleCommand e b p = act e b p MenuToday
          \<and> handleCommand e b p \<noteq> act e b p Help)"
proof -
  have 1: "handleCommand e b p = act e b p (firstMatch precedence (Message p))"
    by (simp add: handleCommand_act classify_firstMatch)
  have 2: "firstMatch precedence (Message p) = MenuToday"
    if "wholeWord ''today'' (Message p)" "\<not> wholeWord ''alive'' (Message p)"
      "\<not> wholeWord ''running'' (Message p)" "\<not> wholeWord ''up'' (Message p)"
  proof -
    from that have "\<not> REG_EXP_STATUS (Message p)" "REG_EXP_TODAY (Message p)"
      by (simp_all add: REG_EXP_STATUS_iff REG_EXP_TODAY_iff)
    then show ?thesis by (simp add: precedence_def)
  qed
  from 1 2 act_MenuToday_not_Help[of e b p] show ?thesis by simp
qed

theorem handleCommand_precedence_witness:
  "wholeWord ''help'' (Message (demoPost ''u1'' ''help today''))
   \<and> wholeWord ''today'' (Message (demoPost ''u1'' ''help today''))
   \<and> \<not> wholeWord ''alive'' (Message (demoPost ''u1'' ''help today''))
   \<and> \<not> wholeWord ''running'' (Message (demoPost ''u1'' ''help today''))
   \<and> \<not> wholeWord ''up'' (Message (demoPost ''u1'' ''help today''))
   \<and> REG_EXP_HELP (Message (demoPost ''u1'' ''help today''))
   \<and> handleCommand demoEnv newMensaBot (demoPost ''u1'' ''help today'')
      = act demoEnv newMensaBot (demoPost ''u1'' ''help today'') MenuToday"
proof -
  let ?p = "demoPost ''u1'' ''help today''"
  have m: "Message ?p = ''help today''" by (simp add: demoPost_def)
  have "MatchKeywords [''help''] ''help today''" "MatchKeywords [''today''] ''help today''"
    "\<not> MatchKeywords [''alive''] ''help today''" "\<not> MatchKeywords [''running''] ''help today''"
    "\<not> MatchKeywords [''up''] ''help today''"
    by code_simp+
  then have w: "wholeWord ''help'' (Message ?p)" "wholeWord ''today'' (Message ?p)"
    "\<not> wholeWord ''alive'' (Message ?p)" "\<not> wholeWord ''running'' (Message ?p)"
    "\<not> wholeWord ''up'' (Message ?p)"
    by (simp_all add: MatchKeywords_iff m)
  from w(1) have h: "REG_EXP_HELP (Message ?p)" by (simp add: REG_EXP_HELP_def MatchKeywords_iff)
  from handleCommand_precedence[of demoEnv newMensaBot ?p] w
  have "handleCommand demoEnv newMensaBot ?p = act demoEnv newMensaBot ?p MenuToday" by blast
  with w h show ?thesis by (intro conjI)
qed

text \<open>
  Claim C7. As stated (an order command only when the leading mention names the bot)
  the claim fails: \<^verbatim>\<open>REG_EXP_ORDER\<close> starts with \<^verbatim>\<open>^@\w+\<close>, any mention, and nothing in
  \<^verbatim>\<open>handleCommand\<close> compares it with the name of the bot. A text that starts with
  \<^verbatim>\<open>@alice\<close> is an order command, and so is one that starts with \<^verbatim>\<open>@bob\<close>.
\<close>

theorem order_command_for_any_mention:
  "classify ''@alice order list'' = OrderCommand \<and> classify ''@bob order list'' = OrderCommand
   \<and> \<not> orderShapeFor ''mensabot'' ''@alice order list''
   \<and> handleCommand demoEnv newMensaBot (demoPost ''u1'' ''@alice order list'')
      = Inr (newMensaBot, [sendMessage ''Cannot list without active order'' ''c1'' ''p1''])"
proof -
  have c: "classify ''@alice order list'' = OrderCommand" "classify ''@bob order list'' = OrderCommand"
    by code_simp+
  have g: "orderGroups ''@alice order list'' = (''list'', [])" by code_simp
  have n: "\<not> orderShapeFor ''mensabot'' ''@alice order list''"
    by (simp add: orderShapeFor_def)
  have "handleCommand demoEnv newMensaBot (demoPost ''u1'' ''@alice order list'')
      = Inr (newMensaBot, [sendMessage ''Cannot list without active order'' ''c1'' ''p1''])"
    by (simp add: handleCommand_act demoPost_def c handleOrder_def g newMensaBot_def)
  with c n show ?thesis by (intro conjI)
qed

text \<open>
  Claim C7, amended. A text is handled as an order command if and only if it has the
  shape \<^verbatim>\<open>@<word> order <open|submit|list|close><rest>\<close>, where \<^verbatim>\<open><word>\<close> is any
  non-empty run of letters, digits and underscores (whether or not it names the bot) and
  \<^verbatim>\<open><rest>\<close>, with or without a space in front, has no newline, and no Status, Menu-today or
  Menu-tomorrow keyword matches it. \<^verbatim>\<open>handleOrder\<close> is then what handles it.
\<close>

theorem classify_order_iff:
  "(classify (Message p) = OrderCommand \<longleftrightarrow>
      orderShape (Message p) \<and> \<not> REG_EXP_STATUS (Message p) \<and> \<not> REG_EXP_TODAY (Message p)
      \<and> \<not> REG_EXP_TOMORROW (Message p))
   \<and> (classify (Message p) = OrderCommand \<longrightarrow> handleCommand e b p = handleOrder e b p)"
  by (simp add: classify_def REG_EXP_ORDER_shape[symmetric] handleCommand_def)

theorem classify_order_iff_witness:
  "classify (Message (demoPost ''u1'' ''@alice order list'')) = OrderCommand
   \<and> orderShape (Message (demoPost ''u1'' ''@alice order list''))
   \<and> handleCommand demoEnv demoOpen (demoPost ''u1'' ''@alice order list'')
      = handleOrder demoEnv demoOpen (demoPost ''u1'' ''@alice order list'')"
proof -
  let ?p = "demoPost ''u1'' ''@alice order list''"
  have c: "classify (Message ?p) = OrderCommand" unfolding demoPost_def by code_simp
  from classify_order_iff[of ?p demoEnv demoOpen] c
  have "orderShape (Message ?p)"
    and "handleCommand demoEnv demoOpen ?p = handleOrder demoEnv demoOpen ?p"
    by blast+
  with c show ?thesis by (intro conjI)
qed

text \<open>
  Claim C4. As stated (a failure of the menu source is caught and becomes one error
  reply) the claim fails: \<^verbatim>\<open>getCanteenPlan\<close> panics on both errors (lines 179 and 183) and
  nothing in \<^verbatim>\<open>main.go\<close> recovers, so no reply is sent and the process ends.
\<close>

theorem handleCommand_fetch_failure:
  "classify (Message (demoPost ''u1'' ''morgen?'')) = MenuTomorrow
   \<and> Get demoEnv CANTEEN_URL_TOMORROW = Inl ''connection refused''
   \<and> handleCommand demoEnv newMensaBot (demoPost ''u1'' ''morgen?'')
      = Inl (PanicErr ''connection refused'')"
proof -
  have c: "classify (Message (demoPost ''u1'' ''morgen?'')) = MenuTomorrow"
    unfolding demoPost_def by code_simp
  have g: "Get demoEnv CANTEEN_URL_TOMORROW = Inl ''connection refused''"
    by (simp add: demoEnv_def CANTEEN_URL_TOMORROW_def CANTEEN_URL_TODAY_def)
  from c g show ?thesis by (simp add: handleCommand_act getCanteenPlan_def)
qed

text \<open>
  Claim C4, amended. For every menu request (today or tomorrow), a network failure or a
  parse failure of the menu source is not caught: \<^verbatim>\<open>handleCommand\<close> ends in the panic that
  carries the error and sends no reply. Nothing recovers the panic, so it ends the
  process, as the startup errors do.
\<close>

theorem handleCommand_fetch_failure_panics:
  assumes "classify (Message p) = MenuToday \<and> url = CANTEEN_URL_TODAY
           \<or> classify (Message p) = MenuTomorrow \<and> url = CANTEEN_URL_TOMORROW"
    and "Get e url = Inl err \<or> (\<exists>body. Get e url = Inr body \<and> Parse e body = Inl err)"
  shows "getCanteenPlan e url = Inl (PanicErr err) \<and> handleCommand e b p = Inl (PanicErr err)"
proof -
  from assms(2) have "getCanteenPlan e url = Inl (PanicErr err)"
    by (auto simp: getCanteenPlan_def)
  with assms(1) show ?thesis by (auto simp: handleCommand_act)
qed

theorem handleCommand_fetch_failure_panics_witness:
  "classify (Message (demoPost ''u1'' ''morgen?'')) = MenuTomorrow
   \<and> Get demoEnv CANTEEN_URL_TOMORROW = Inl ''connection refused''
   \<and> getCanteenPlan demoEnv CANTEEN_URL_TOMORROW = Inl (PanicErr ''connection refused'')
   \<and> handleCommand demoEnv demoOpen (demoPost ''u1'' ''morgen?'') = Inl (PanicErr ''connection refused'')"
proof -
  let ?p = "demoPost ''u1'' ''morgen?''"
  have c: "classify (Message ?p) = MenuTomorrow" unfolding demoPost_def by code_simp
  have g: "Get demoEnv CANTEEN_URL_TOMORROW = Inl ''connection refused''"
    by (simp add: demoEnv_def CANTEEN_URL_TOMORROW_def CANTEEN_URL_TODAY_def)
  from c have h1: "classify (Message ?p) = MenuToday \<and> CANTEEN_URL_TOMORROW = CANTEEN_URL_TODAY
           \<or> classify (Message ?p) = MenuTomorrow \<and> CANTEEN_URL_TOMORROW = CANTEEN_URL_TOMORROW"
    by simp
  from g have h2: "Get demoEnv CANTEEN_URL_TOMORROW = Inl ''connection refused''
      \<or> (\<exists>body. Get demoEnv CANTEEN_URL_TOMORROW = Inr body \<and> Parse demoEnv body = Inl ''connection refused'')"
    by simp
  from handleCommand_fetch_failure_panics[OF h1 h2, of demoOpen] c g show ?thesis by simp
qed

end
